theory Spec2Isabelle
  imports Complex_Main "HOL-Library.Char_ord" "HOL-Library.List_Lexorder" "HOL-Library.Multiset"
begin

section \<open>Data model of \<^verbatim>\<open>src/App.tsx\<close>\<close>

text \<open>
  The types \<^verbatim>\<open>ItemOption\<close>, \<^verbatim>\<open>WishlistItem\<close> and the component state of
  \<^verbatim>\<open>MainApp\<close>. An optional field (\<^verbatim>\<open>link?: string\<close>) is an \<open>option\<close>, with
  \<open>None\<close> for \<^verbatim>\<open>undefined\<close>. Record fields are global names in HOL, so the fields of
  the option record carry the prefix \<open>opt_\<close>, the history entry's \<^verbatim>\<open>points\<close> is
  \<open>entry_points\<close> and the item's \<^verbatim>\<open>id\<close> is \<open>item_id\<close>.

  Numbers: \<^verbatim>\<open>points\<close> and \<^verbatim>\<open>remainingPoints\<close> only ever hold integers (they start
  at integers and change by one), so they are \<open>int\<close>. A price comes from
  \<^verbatim>\<open>parseFloat\<close> and is a finite number that need not be integral: \<open>rat\<close>.
  \<^verbatim>\<open>dateAdded\<close> is the ISO string of an instant and is only read through
  \<^verbatim>\<open>new Date(dateAdded).getTime()\<close>; the model keeps that time value (milliseconds
  since the epoch) instead of the string. A \<open>string\<close> is a list of bytes; the day-keys
  that are compared are ASCII, where the order of bytes is the order of code units.

  The file holds two versions of the component. The model follows the first, current
  one (with options, point history, trend and the frozen view, and
  \<^verbatim>\<open>MAX_DAILY_POINTS = 15\<close>).
\<close>

record ItemOption =
  opt_id :: string
  opt_name :: string
  opt_price :: rat
  opt_link :: "string option"
  opt_imageUrl :: "string option"

record PointEntry =
  date :: string
  entry_points :: int

record WishlistItem =
  item_id :: string
  name :: string
  price :: rat
  link :: "string option"
  imageUrl :: "string option"
  points :: int
  dateAdded :: int
  isPurchased :: bool
  datePurchased :: "string option"
  options :: "ItemOption list option"
  selectedOptionId :: "string option"
  pointHistory :: "PointEntry list option"

datatype SortMode = SortPoints | SortDate | SortPrice

datatype TrendingStatus = StatusNone | StatusTrending | StatusHot

text \<open>
  The calls of \<^verbatim>\<open>Haptics\<close> are the only signal a vote gives its caller:
  \<^verbatim>\<open>notificationAsync(Warning)\<close> on a refused vote and
  \<^verbatim>\<open>impactAsync(Light)\<close> on an accepted one. The vote functions return them, in
  the order of the source text.
\<close>

datatype Haptic = NotificationWarning | ImpactLight

text \<open>
  The state of \<^verbatim>\<open>MainApp\<close> that the modelled functions read or write. \<open>timers\<close>
  is not a variable of the source: it is the runtime's queue of pending
  \<^verbatim>\<open>setTimeout\<close> callbacks, each held as the instant at which it is due. The only
  callback that the vote functions schedule is \<^verbatim>\<open>() => setIsSortingFrozen(false)\<close>.
\<close>

record AppState =
  items :: "WishlistItem list"
  remainingPoints :: int
  lastResetDate :: string
  hidePurchased :: bool
  sortMode :: SortMode
  selectedItem :: "WishlistItem option"
  isSortingFrozen :: bool
  frozenItems :: "WishlistItem list"
  timers :: "int list"

definition MAX_DAILY_POINTS :: int where
  "MAX_DAILY_POINTS = 15"

section \<open>The clock: \<^verbatim>\<open>getTodayKey\<close>\<close>

text \<open>
  \<^verbatim>\<open>new Date().toISOString().slice(0, 10)\<close> at the instant \<open>now\<close>, in milliseconds
  since the epoch (a time value of the runtime, so within 8.64e15 of 0). \<open>civil\<close> is the
  runtime's conversion of a day number to the year, month and day of the proleptic
  Gregorian calendar, in UTC. \<^verbatim>\<open>toISOString\<close> prints the years 0 to 9999 with four
  digits and every other year with a sign and six digits, and \<^verbatim>\<open>slice(0, 10)\<close> keeps
  the first ten characters: \<^verbatim>\<open>yyyy-mm-dd\<close> for the years 0 to 9999.
\<close>

definition digit :: "int \<Rightarrow> char" where
  "digit n = ''0123456789'' ! nat n"

definition pad2 :: "int \<Rightarrow> string" where
  "pad2 n = [digit (n div 10 mod 10), digit (n mod 10)]"

definition pad4 :: "int \<Rightarrow> string" where
  "pad4 n = [digit (n div 1000 mod 10), digit (n div 100 mod 10),
             digit (n div 10 mod 10), digit (n mod 10)]"

definition pad6 :: "int \<Rightarrow> string" where
  "pad6 n = [digit (n div 100000 mod 10), digit (n div 10000 mod 10)] @ pad4 n"

text \<open>
  The day number is counted from 0000-03-01 and cut into eras of 400 years, which are
  146097 days: \<open>yearOfEra\<close> is the year of the era (0 to 399) that holds the day
  \<open>doe\<close> of the era, \<open>daysBeforeYear y\<close> is the number of days of the era before its
  year \<open>y\<close>, \<open>monthIndex\<close> is the month of a day of the year with March as month 0,
  and \<open>dayOfMonth\<close> is the day of that month, from 1.
\<close>

definition yearOfEra :: "int \<Rightarrow> int" where
  "yearOfEra doe = (doe - doe div 1460 + doe div 36524 - doe div 146096) div 365"

definition daysBeforeYear :: "int \<Rightarrow> int" where
  "daysBeforeYear y = 365 * y + y div 4 - y div 100"

definition monthIndex :: "int \<Rightarrow> int" where
  "monthIndex doy = (5 * doy + 2) div 153"

definition dayOfMonth :: "int \<Rightarrow> int" where
  "dayOfMonth doy = doy - (153 * monthIndex doy + 2) div 5 + 1"

definition civil :: "int \<Rightarrow> int \<times> int \<times> int" where
  "civil days =
     (let z = days + 719468;
          era = z div 146097;
          doe = z mod 146097;
          yoe = yearOfEra doe;
          doy = doe - daysBeforeYear yoe;
          mp = monthIndex doy;
          d = dayOfMonth doy;
          m = (if mp < 10 then mp + 3 else mp - 9);
          y = yoe + era * 400 + (if m \<le> 2 then 1 else 0)
      in (y, m, d))"

definition isoYear :: "int \<Rightarrow> string" where
  "isoYear y =
     (if 0 \<le> y \<and> y \<le> 9999 then pad4 y
      else (if y < 0 then ''-'' else ''+'') @ pad6 (abs y))"

definition getTodayKey :: "int \<Rightarrow> string" where
  "getTodayKey now =
     (case civil (now div 86400000) of
        (y, m, d) \<Rightarrow> take 10 (isoYear y @ ''-'' @ pad2 m @ ''-'' @ pad2 d))"

text \<open>
  The instants whose year has four digits: from 0000-01-01T00:00:00Z up to, and not
  including, 10000-01-01T00:00:00Z. On them the day-keys are ordered as the days are.
\<close>

definition fourDigitYear :: "int \<Rightarrow> bool" where
  "fourDigitYear t \<longleftrightarrow> - 62167219200000 \<le> t \<and> t < 253402300800000"

text \<open>
  The rank of a day, used to compare dates: its month, counted from March of the year
  0 of the era 0, times 32, plus the day of the month.
\<close>

definition dayRank :: "int \<Rightarrow> int" where
  "dayRank z =
     (let era = z div 146097;
          doe = z mod 146097;
          yoe = yearOfEra doe;
          doy = doe - daysBeforeYear yoe
      in (12 * (yoe + era * 400) + monthIndex doy) * 32 + dayOfMonth doy)"

section \<open>Voting: \<^verbatim>\<open>addPoint\<close> and \<^verbatim>\<open>removePoint\<close>\<close>

text \<open>
  \<^verbatim>\<open>newPointHistory.find(entry => entry.date === today)\<close> yields the first entry
  of today, and the assignment to \<^verbatim>\<open>todayEntry.points\<close> changes that entry where
  it stands. \<open>updateFirst\<close> is that update of the first match.
\<close>

fun updateFirst :: "('a \<Rightarrow> bool) \<Rightarrow> ('a \<Rightarrow> 'a) \<Rightarrow> 'a list \<Rightarrow> 'a list" where
  "updateFirst p f [] = []"
| "updateFirst p f (x # xs) = (if p x then f x # xs else x # updateFirst p f xs)"

text \<open>\<^verbatim>\<open>it.pointHistory || []\<close>\<close>

definition historyOrEmpty :: "WishlistItem \<Rightarrow> PointEntry list" where
  "historyOrEmpty it = (case pointHistory it of None \<Rightarrow> [] | Some h \<Rightarrow> h)"

text \<open>
  The body of the \<^verbatim>\<open>map\<close> callback of \<^verbatim>\<open>addPoint\<close> for the item that is voted.
  \<^verbatim>\<open>newPointHistory\<close> is a copy of the array, not of its entries: the write to
  \<^verbatim>\<open>todayEntry.points\<close> is a write to an entry object that older item lists
  (\<^verbatim>\<open>frozenItems\<close>, \<^verbatim>\<open>selectedItem\<close>) may hold as well. The model gives the new value
  of \<^verbatim>\<open>items\<close>, and keeps the older lists by value; no property below reads a history
  through them after a write.
\<close>

definition addPointItem :: "string \<Rightarrow> WishlistItem \<Rightarrow> WishlistItem" where
  "addPointItem today it =
     (let newPointHistory = historyOrEmpty it;
          newPointHistory' =
            (case find (\<lambda>entry. date entry = today) newPointHistory of
               Some todayEntry \<Rightarrow>
                 updateFirst (\<lambda>entry. date entry = today)
                   (\<lambda>entry. entry\<lparr>entry_points := entry_points entry + 1\<rparr>) newPointHistory
             | None \<Rightarrow> newPointHistory @ [\<lparr>date = today, entry_points = 1\<rparr>])
      in it\<lparr>points := points it + 1, pointHistory := Some newPointHistory'\<rparr>)"

text \<open>The same for \<^verbatim>\<open>removePoint\<close>, with its two \<^verbatim>\<open>Math.max(0, ...)\<close>.\<close>

definition removePointItem :: "string \<Rightarrow> WishlistItem \<Rightarrow> WishlistItem" where
  "removePointItem today it =
     (let newPointHistory = historyOrEmpty it;
          newPointHistory' =
            (case find (\<lambda>entry. date entry = today) newPointHistory of
               Some todayEntry \<Rightarrow>
                 updateFirst (\<lambda>entry. date entry = today)
                   (\<lambda>entry. entry\<lparr>entry_points := max 0 (entry_points entry - 1)\<rparr>)
                   newPointHistory
             | None \<Rightarrow> newPointHistory @ [\<lparr>date = today, entry_points = - 1\<rparr>])
      in it\<lparr>points := max 0 (points it - 1), pointHistory := Some newPointHistory'\<rparr>)"

text \<open>
  The first and the last statement of both vote functions: under the sort mode
  \<^verbatim>\<open>'points'\<close> the view is frozen on the items as they are before the vote, and a
  timeout of 1000 ms is started whose callback unfreezes it. No handle of the
  timeout is kept and \<^verbatim>\<open>clearTimeout\<close> is never called.
\<close>

definition freezeSorting :: "int \<Rightarrow> AppState \<Rightarrow> AppState" where
  "freezeSorting now st =
     (if sortMode st = SortPoints
      then st\<lparr>isSortingFrozen := True, frozenItems := items st,
              timers := timers st @ [now + 1000]\<rparr>
      else st)"

text \<open>
  \<^verbatim>\<open>if (selectedItem?.id === id) { const updatedItem = next.find(...); if (updatedItem)
  setSelectedItem(updatedItem) }\<close>
\<close>

definition refreshSelected ::
  "string \<Rightarrow> WishlistItem list \<Rightarrow> WishlistItem option \<Rightarrow> WishlistItem option" where
  "refreshSelected ident next sel =
     (case sel of
        None \<Rightarrow> None
      | Some s \<Rightarrow>
          if item_id s = ident
          then (case find (\<lambda>it. item_id it = ident) next of
                  Some updatedItem \<Rightarrow> Some updatedItem
                | None \<Rightarrow> sel)
          else sel)"

text \<open>
  \<^verbatim>\<open>addPoint(id)\<close> at the instant \<open>now\<close>. The updater passed to \<^verbatim>\<open>setItems\<close> returns
  \<^verbatim>\<open>prev\<close> when no point is left; the budget is then written outside the updater.
\<close>

definition addPoint :: "int \<Rightarrow> string \<Rightarrow> AppState \<Rightarrow> Haptic list \<times> AppState" where
  "addPoint now ident st =
     (let st1 = freezeSorting now st;
          today = getTodayKey now;
          refused = (remainingPoints st \<le> 0);
          next = (if refused then items st
                  else map (\<lambda>it. if item_id it = ident then addPointItem today it else it)
                         (items st));
          sel = (if refused then selectedItem st
                 else refreshSelected ident next (selectedItem st));
          newRemainingPoints =
            (if remainingPoints st > 0 then remainingPoints st - 1 else remainingPoints st)
      in ((if refused then [NotificationWarning] else []) @
          (if remainingPoints st > 0 then [ImpactLight] else []),
          st1\<lparr>items := next, selectedItem := sel, remainingPoints := newRemainingPoints\<rparr>))"

text \<open>
  \<^verbatim>\<open>removePoint(id)\<close> at the instant \<open>now\<close>. The updater passed to \<^verbatim>\<open>setItems\<close>
  returns \<^verbatim>\<open>prev\<close> when the item is missing or has no point; the statements after
  the updater (\<^verbatim>\<open>setRemainingPoints(p => (p < MAX_DAILY_POINTS ? p + 1 : p))\<close> and
  \<^verbatim>\<open>Haptics.impactAsync\<close>) are not under that test.
\<close>

definition removePoint :: "int \<Rightarrow> string \<Rightarrow> AppState \<Rightarrow> Haptic list \<times> AppState" where
  "removePoint now ident st =
     (let st1 = freezeSorting now st;
          today = getTodayKey now;
          target = find (\<lambda>it. item_id it = ident) (items st);
          refused = (case target of None \<Rightarrow> True | Some t \<Rightarrow> points t \<le> 0);
          next = (if refused then items st
                  else map (\<lambda>it. if item_id it = ident then removePointItem today it else it)
                         (items st));
          sel = (if refused then selectedItem st
                 else refreshSelected ident next (selectedItem st));
          p = remainingPoints st
      in ((if refused then [NotificationWarning] else []) @ [ImpactLight],
          st1\<lparr>items := next, selectedItem := sel,
              remainingPoints := (if p < MAX_DAILY_POINTS then p + 1 else p)\<rparr>))"

text \<open>A sequence of votes, each at its own instant, run one after the other.\<close>

datatype Vote = Upvote int string | Downvote int string

fun applyVote :: "Vote \<Rightarrow> AppState \<Rightarrow> AppState" where
  "applyVote (Upvote now ident) st = snd (addPoint now ident st)"
| "applyVote (Downvote now ident) st = snd (removePoint now ident st)"

fun applyVotes :: "Vote list \<Rightarrow> AppState \<Rightarrow> AppState" where
  "applyVotes [] st = st"
| "applyVotes (v # vs) st = applyVotes vs (applyVote v st)"

text \<open>The invariant of the budget and of the point counts.\<close>

definition budgetInvariant :: "AppState \<Rightarrow> bool" where
  "budgetInvariant st \<longleftrightarrow>
     0 \<le> remainingPoints st \<and> remainingPoints st \<le> MAX_DAILY_POINTS \<and>
     list_all (\<lambda>it. 0 \<le> points it) (items st)"

section \<open>Timers\<close>

text \<open>
  The passing of time up to the instant \<open>now\<close>: the runtime runs every pending timeout
  callback that is due. Each callback is \<^verbatim>\<open>setIsSortingFrozen(false)\<close>, so the view is
  unfrozen as soon as one callback has run, whatever timeouts are still pending.
\<close>

definition runTimers :: "int \<Rightarrow> AppState \<Rightarrow> AppState" where
  "runTimers now st =
     (if list_ex (\<lambda>due. due \<le> now) (timers st)
      then st\<lparr>isSortingFrozen := False,
              timers := filter (\<lambda>due. \<not> due \<le> now) (timers st)\<rparr>
      else st)"

fun voteInstant :: "Vote \<Rightarrow> int" where
  "voteInstant (Upvote now ident) = now"
| "voteInstant (Downvote now ident) = now"

section \<open>Trend: \<^verbatim>\<open>getWeeklyPoints\<close> and \<^verbatim>\<open>getTrendingStatus\<close>\<close>

text \<open>
  \<^verbatim>\<open>getWeeklyPoints(item)\<close> at the instant \<open>now\<close>. The comparison
  \<^verbatim>\<open>entry.date >= sevenDaysAgoKey\<close> is the comparison of two strings, code unit by
  code unit, which is the lexicographic order of \<open>string\<close>.
\<close>

definition getWeeklyPoints :: "WishlistItem \<Rightarrow> int \<Rightarrow> int" where
  "getWeeklyPoints item now =
     (case pointHistory item of
        None \<Rightarrow> 0
      | Some h \<Rightarrow>
          if length h = 0 then 0
          else
            (let sevenDaysAgo = now - 7 * 24 * 60 * 60 * 1000;
                 sevenDaysAgoKey = getTodayKey sevenDaysAgo
             in fold (\<lambda>entry weeklyPoints.
                        if date entry \<ge> sevenDaysAgoKey
                        then weeklyPoints + entry_points entry else weeklyPoints)
                  h 0))"

definition getTrendingStatus :: "WishlistItem \<Rightarrow> int \<Rightarrow> TrendingStatus" where
  "getTrendingStatus item now =
     (let weeklyPoints = getWeeklyPoints item now
      in if weeklyPoints \<ge> 10 then StatusHot
         else if weeklyPoints \<ge> 5 then StatusTrending
         else StatusNone)"

text \<open>
  The specification's wording of the weekly sum, for comparison with the code: the
  entries whose day-key is one of the seven day-keys of the inclusive window that ends
  at the day of \<open>now\<close>, that is the days \<open>D - 6\<close> to \<open>D\<close>.
\<close>

definition specWindowKeys :: "int \<Rightarrow> string list" where
  "specWindowKeys now = map (\<lambda>k. getTodayKey (now - k * 86400000)) [0, 1, 2, 3, 4, 5, 6]"

definition specWeeklyPoints :: "WishlistItem \<Rightarrow> int \<Rightarrow> int" where
  "specWeeklyPoints item now =
     sum_list (map entry_points
       (filter (\<lambda>entry. date entry \<in> set (specWindowKeys now)) (historyOrEmpty item)))"

section \<open>The ranking view: \<^verbatim>\<open>sortedItems\<close> and \<^verbatim>\<open>getCurrentDisplayItem\<close>\<close>

text \<open>
  \<^verbatim>\<open>Array.prototype.sort\<close> is stable, and the comparator \<^verbatim>\<open>(a, b) => b.k - a.k\<close> puts
  the larger key first: a stable sort by the negated key, which is what
  \<open>sort_key\<close> (insertion sort) computes.
\<close>

definition sortedItems :: "AppState \<Rightarrow> WishlistItem list" where
  "sortedItems st =
     (let sourceItems = (if isSortingFrozen st then frozenItems st else items st);
          filtered = (if hidePurchased st then filter (\<lambda>i. \<not> isPurchased i) sourceItems
                      else sourceItems)
      in case sortMode st of
           SortPoints \<Rightarrow> sort_key (\<lambda>a. - points a) filtered
         | SortDate \<Rightarrow> sort_key (\<lambda>a. - dateAdded a) filtered
         | SortPrice \<Rightarrow> sort_key (\<lambda>a. - price a) filtered)"

text \<open>
  \<^verbatim>\<open>if (item.options && item.selectedOptionId)\<close>: an array is truthy also when empty,
  a string is truthy unless empty.
\<close>

definition getCurrentDisplayItem :: "WishlistItem \<Rightarrow> WishlistItem" where
  "getCurrentDisplayItem item =
     (case (options item, selectedOptionId item) of
        (Some opts, Some sel) \<Rightarrow>
          if sel = [] then item
          else
            (case find (\<lambda>opt. opt_id opt = sel) opts of
               Some selectedOption \<Rightarrow>
                 item\<lparr>name := opt_name selectedOption, price := opt_price selectedOption,
                      link := opt_link selectedOption,
                      imageUrl := opt_imageUrl selectedOption\<rparr>
             | None \<Rightarrow> item)
      | _ \<Rightarrow> item)"

section \<open>The daily reset: \<^verbatim>\<open>checkAndResetDailyPoints\<close>\<close>

definition checkAndResetDailyPoints :: "int \<Rightarrow> AppState \<Rightarrow> AppState" where
  "checkAndResetDailyPoints now st =
     (let today = getTodayKey now
      in if lastResetDate st \<noteq> today
         then st\<lparr>remainingPoints := MAX_DAILY_POINTS, lastResetDate := today\<rparr>
         else st)"

section \<open>Options: \<^verbatim>\<open>addOptionToItem\<close>, and \<^verbatim>\<open>saveNewItem\<close>\<close>

text \<open>
  The object that both \<^verbatim>\<open>map\<close> callbacks of \<^verbatim>\<open>addOptionToItem\<close> build.
  \<^verbatim>\<open>item.options?.length === 0\<close> is false when \<^verbatim>\<open>options\<close> is undefined.
\<close>

definition addOptionItem :: "ItemOption \<Rightarrow> WishlistItem \<Rightarrow> WishlistItem" where
  "addOptionItem opt item =
     (let updatedOptions = (case options item of None \<Rightarrow> [] | Some os \<Rightarrow> os) @ [opt]
      in item\<lparr>options := Some updatedOptions,
              selectedOptionId :=
                (case options item of
                   None \<Rightarrow> selectedOptionId item
                 | Some os \<Rightarrow>
                     if length os = 0 then Some (opt_id opt) else selectedOptionId item)\<rparr>)"

definition addOptionToItem :: "string \<Rightarrow> ItemOption \<Rightarrow> AppState \<Rightarrow> AppState" where
  "addOptionToItem itemId opt st =
     st\<lparr>items := map (\<lambda>item. if item_id item \<noteq> itemId then item else addOptionItem opt item)
                    (items st),
        selectedItem :=
          (case selectedItem st of
             None \<Rightarrow> None
           | Some prev \<Rightarrow> if item_id prev = itemId then Some (addOptionItem opt prev)
                          else Some prev)\<rparr>"

text \<open>\<^verbatim>\<open>String(n)\<close> for an integer \<open>n\<close>: its decimal digits, with a sign when negative.\<close>

function decimal :: "int \<Rightarrow> string" where
  "decimal n = (if n < 10 then [digit n] else decimal (n div 10) @ [digit (n mod 10)])"
  by pat_completeness auto
termination
  by (relation "measure nat") auto

declare decimal.simps [simp del]

definition numberToString :: "int \<Rightarrow> string" where
  "numberToString n = (if n < 0 then ''-'' @ decimal (- n) else decimal n)"

text \<open>
  \<^verbatim>\<open>saveNewItem\<close>. Its inputs are the form fields after \<^verbatim>\<open>trim()\<close>; the price field
  is blank, or \<^verbatim>\<open>parseFloat\<close> yields \<^verbatim>\<open>NaN\<close>, or it yields a number.
  \<open>scrapedImage\<close> is the answer of \<^verbatim>\<open>scrapeImageFromUrl\<close>, a collaborator outside
  this model (\<open>None\<close> for \<^verbatim>\<open>null\<close> or a failure). The object literal \<^verbatim>\<open>newItem\<close> has
  no \<^verbatim>\<open>options\<close>, \<^verbatim>\<open>selectedOptionId\<close>, \<^verbatim>\<open>datePurchased\<close> or \<^verbatim>\<open>pointHistory\<close>.
\<close>

datatype PriceField = PriceBlank | PriceNaN | PriceNumber rat

definition orUndefined :: "string \<Rightarrow> string option" where
  "orUndefined s = (if s = [] then None else Some s)"

definition newItem ::
  "int \<Rightarrow> string \<Rightarrow> rat \<Rightarrow> string \<Rightarrow> string \<Rightarrow> string option \<Rightarrow> WishlistItem" where
  "newItem now formName price' formLink formImageUrl scrapedImage =
     \<lparr>item_id = numberToString now,
      name = formName,
      price = price',
      link = orUndefined formLink,
      imageUrl =
        (case orUndefined formImageUrl of
           Some u \<Rightarrow> Some u
         | None \<Rightarrow>
             if formLink \<noteq> []
             then (case scrapedImage of Some u \<Rightarrow> orUndefined u | None \<Rightarrow> None)
             else None),
      points = 0,
      dateAdded = now,
      isPurchased = False,
      datePurchased = None,
      options = None,
      selectedOptionId = None,
      pointHistory = None\<rparr>"

definition saveNewItem ::
  "int \<Rightarrow> string \<Rightarrow> PriceField \<Rightarrow> string \<Rightarrow> string \<Rightarrow> string option \<Rightarrow> AppState
     \<Rightarrow> AppState" where
  "saveNewItem now formName formPrice formLink formImageUrl scrapedImage st =
     (if formName = [] then st
      else
        (case formPrice of
           PriceBlank \<Rightarrow>
             st\<lparr>items := newItem now formName 0 formLink formImageUrl scrapedImage # items st\<rparr>
         | PriceNaN \<Rightarrow> st
         | PriceNumber p \<Rightarrow>
             if p < 0 then st
             else st\<lparr>items :=
                       newItem now formName p formLink formImageUrl scrapedImage # items st\<rparr>))"

section \<open>Concrete inputs\<close>

text \<open>
  The instant 2024-01-10T12:00:00Z, a list of one item without points, and a state
  sorted by points with five of the fifteen daily points left.
\<close>

definition noon :: int where
  "noon = 1704888000000"

definition bike :: WishlistItem where
  "bike = \<lparr>item_id = ''a'', name = ''Bike'', price = 10, link = None, imageUrl = None,
            points = 0, dateAdded = 1704000000000, isPurchased = False,
            datePurchased = None, options = None, selectedOptionId = None,
            pointHistory = None\<rparr>"

definition fiveLeft :: AppState where
  "fiveLeft = \<lparr>items = [bike], remainingPoints = 5, lastResetDate = ''2024-01-10'',
                hidePurchased = False, sortMode = SortPoints, selectedItem = None,
                isSortingFrozen = False, frozenItems = [], timers = []\<rparr>"

text \<open>An item whose only history entry is dated seven days before \<open>noon\<close>.\<close>

definition votedLastWeek :: WishlistItem where
  "votedLastWeek =
     bike\<lparr>points := 6, pointHistory := Some [\<lparr>date = ''2024-01-03'', entry_points = 6\<rparr>]\<rparr>"

text \<open>
  A history with entries ten and seven days before \<open>noon\<close>, on the day of \<open>noon\<close>
  (a negative one) and on the day after.
\<close>

definition longHistory :: WishlistItem where
  "longHistory =
     bike\<lparr>points := 11,
          pointHistory := Some [\<lparr>date = ''2023-12-31'', entry_points = 6\<rparr>,
                                \<lparr>date = ''2024-01-03'', entry_points = 6\<rparr>,
                                \<lparr>date = ''2024-01-10'', entry_points = - 2\<rparr>,
                                \<lparr>date = ''2024-01-11'', entry_points = 1\<rparr>]\<rparr>"

text \<open>
  Two items under the sort mode \<^verbatim>\<open>'price'\<close>: the bike (own price 10) shows its
  selected option (price 100), the lamp has no option and costs 50.
\<close>

definition carbon :: ItemOption where
  "carbon = \<lparr>opt_id = ''o1'', opt_name = ''Carbon bike'', opt_price = 100,
              opt_link = None, opt_imageUrl = None\<rparr>"

definition bikeWithOption :: WishlistItem where
  "bikeWithOption = bike\<lparr>options := Some [carbon], selectedOptionId := Some ''o1''\<rparr>"

definition lamp :: WishlistItem where
  "lamp = bike\<lparr>item_id := ''b'', name := ''Lamp'', price := 50\<rparr>"

definition byPrice :: AppState where
  "byPrice = fiveLeft\<lparr>items := [bikeWithOption, lamp], sortMode := SortPrice\<rparr>"

text \<open>
  An item with one point whose entry of the day of \<open>noon\<close> stands at 0 (one vote up
  and one vote down on that day, and one point from an earlier time).
\<close>

definition votedItem :: WishlistItem where
  "votedItem =
     bike\<lparr>points := 1, pointHistory := Some [\<lparr>date = ''2024-01-10'', entry_points = 0\<rparr>]\<rparr>"

definition votedToday :: AppState where
  "votedToday = fiveLeft\<lparr>items := [votedItem]\<rparr>"

text \<open>A state whose budget was last reset on the day before \<open>noon\<close>.\<close>

definition resetYesterday :: AppState where
  "resetYesterday = fiveLeft\<lparr>lastResetDate := ''2024-01-09''\<rparr>"

section \<open>Properties\<close>

lemma freezeSorting_items [simp]: "items (freezeSorting now st) = items st"
  by (simp add: freezeSorting_def)

lemma freezeSorting_remainingPoints [simp]:
  "remainingPoints (freezeSorting now st) = remainingPoints st"
  by (simp add: freezeSorting_def)

lemma points_addPointItem: "points (addPointItem today it) = points it + 1"
  by (simp add: addPointItem_def Let_def)

lemma points_removePointItem: "points (removePointItem today it) = max 0 (points it - 1)"
  by (simp add: removePointItem_def Let_def)

lemma budgetInvariant_addPoint:
  assumes "budgetInvariant st"
  shows "budgetInvariant (snd (addPoint now ident st))"
proof -
  have "list_all (\<lambda>it. 0 \<le> points it)
          (map (\<lambda>it. if item_id it = ident then addPointItem (getTodayKey now) it else it)
             (items st))"
    using assms
    by (auto simp: budgetInvariant_def list_all_iff points_addPointItem)
  with assms show ?thesis
    by (auto simp: budgetInvariant_def addPoint_def Let_def)
qed

lemma budgetInvariant_removePoint:
  assumes "budgetInvariant st"
  shows "budgetInvariant (snd (removePoint now ident st))"
proof -
  have "list_all (\<lambda>it. 0 \<le> points it)
          (map (\<lambda>it. if item_id it = ident then removePointItem (getTodayKey now) it else it)
             (items st))"
    using assms
    by (auto simp: budgetInvariant_def list_all_iff points_removePointItem)
  with assms show ?thesis
    by (auto simp: budgetInvariant_def removePoint_def Let_def)
qed

lemma budgetInvariant_applyVote:
  "budgetInvariant st \<Longrightarrow> budgetInvariant (applyVote v st)"
  by (cases v) (simp_all add: budgetInvariant_addPoint budgetInvariant_removePoint)

lemma budgetInvariant_applyVotes:
  "budgetInvariant st \<Longrightarrow> budgetInvariant (applyVotes vs st)"
proof (induction vs arbitrary: st)
  case Nil
  then show ?case by simp
next
  case (Cons v vs)
  from Cons.prems have "budgetInvariant (applyVote v st)"
    by (rule budgetInvariant_applyVote)
  then show ?case
    by (simp add: Cons.IH)
qed

text \<open>
  C1. From every state in which \<open>remainingPoints\<close> lies in \<open>[0, MAX_DAILY_POINTS]\<close> and
  no item has negative points, every finite sequence of \<open>addPoint\<close> and \<open>removePoint\<close>
  calls, on any item ids and at any instants, keeps \<open>remainingPoints\<close> in
  \<open>[0, MAX_DAILY_POINTS]\<close> and every item's points non-negative after each call, that is
  after every prefix of the sequence.
\<close>

theorem C1_votes_keep_budget_and_points_in_range:
  assumes "0 \<le> remainingPoints st" and "remainingPoints st \<le> MAX_DAILY_POINTS"
    and "list_all (\<lambda>it. 0 \<le> points it) (items st)"
  shows "0 \<le> remainingPoints (applyVotes (take n vs) st) \<and>
         remainingPoints (applyVotes (take n vs) st) \<le> MAX_DAILY_POINTS \<and>
         list_all (\<lambda>it. 0 \<le> points it) (items (applyVotes (take n vs) st))"
proof -
  from assms have "budgetInvariant st"
    by (simp add: budgetInvariant_def)
  then have "budgetInvariant (applyVotes (take n vs) st)"
    by (rule budgetInvariant_applyVotes)
  then show ?thesis
    by (simp add: budgetInvariant_def)
qed

theorem C1_votes_keep_budget_and_points_in_range_witness:
  "0 \<le> remainingPoints fiveLeft \<and> remainingPoints fiveLeft \<le> MAX_DAILY_POINTS \<and>
   list_all (\<lambda>it. 0 \<le> points it) (items fiveLeft) \<and>
   0 \<le> remainingPoints
         (applyVotes (take 3 [Upvote noon ''a'', Downvote (noon + 500) ''a'',
                              Downvote (noon + 600) ''zz'']) fiveLeft) \<and>
   remainingPoints
     (applyVotes (take 3 [Upvote noon ''a'', Downvote (noon + 500) ''a'',
                          Downvote (noon + 600) ''zz'']) fiveLeft) \<le> MAX_DAILY_POINTS \<and>
   list_all (\<lambda>it. 0 \<le> points it)
     (items (applyVotes (take 3 [Upvote noon ''a'', Downvote (noon + 500) ''a'',
                                 Downvote (noon + 600) ''zz'']) fiveLeft))"
proof -
  have h1: "0 \<le> remainingPoints fiveLeft"
    by (simp add: fiveLeft_def)
  have h2: "remainingPoints fiveLeft \<le> MAX_DAILY_POINTS"
    by (simp add: fiveLeft_def MAX_DAILY_POINTS_def)
  have h3: "list_all (\<lambda>it. 0 \<le> points it) (items fiveLeft)"
    by (simp add: fiveLeft_def bike_def)
  from C1_votes_keep_budget_and_points_in_range [OF h1 h2 h3] h1 h2 h3
  show ?thesis by blast
qed

subsection \<open>What a refused vote changes\<close>

lemma removePoint_refused:
  assumes "find (\<lambda>it. item_id it = ident) (items st) = None \<or>
           (\<exists>t. find (\<lambda>it. item_id it = ident) (items st) = Some t \<and> points t \<le> 0)"
  shows "fst (removePoint now ident st) = [NotificationWarning, ImpactLight]"
    and "items (snd (removePoint now ident st)) = items st"
    and "remainingPoints (snd (removePoint now ident st)) =
           (if remainingPoints st < MAX_DAILY_POINTS then remainingPoints st + 1
            else remainingPoints st)"
  using assms by (auto simp: removePoint_def Let_def)

lemma addPoint_absent:
  assumes "find (\<lambda>it. item_id it = ident) (items st) = None"
  shows "items (snd (addPoint now ident st)) = items st"
    and "remainingPoints (snd (addPoint now ident st)) =
           (if remainingPoints st > 0 then remainingPoints st - 1 else remainingPoints st)"
proof -
  from assms have "\<forall>it\<in>set (items st). item_id it \<noteq> ident"
    by (simp add: find_None_iff)
  then have "map (\<lambda>it. if item_id it = ident then addPointItem (getTodayKey now) it else it)
               (items st) = items st"
    by (induction "items st") (auto simp: map_idI)
  then show "items (snd (addPoint now ident st)) = items st"
    by (simp add: addPoint_def Let_def)
  show "remainingPoints (snd (addPoint now ident st)) =
           (if remainingPoints st > 0 then remainingPoints st - 1 else remainingPoints st)"
    by (simp add: addPoint_def Let_def)
qed

text \<open>
  C2. The specification: \<open>removePoint\<close> on an item that is present and has no points is refused
  and changes nothing, in particular not \<open>remainingPoints\<close>. The code, on the state
  \<open>fiveLeft\<close> and its item \<open>''a''\<close> with zero points: the warning is given and the items
  stay as they are, and then the statements after the updater run, so \<open>remainingPoints\<close>
  goes from 5 to 6, the success feedback is given as well, and the view is frozen.
\<close>

theorem C2_removePoint_without_points_refunds:
  "find (\<lambda>it. item_id it = ''a'') (items fiveLeft) = Some bike \<and> points bike = 0 \<and>
   remainingPoints fiveLeft = 5 \<and>
   removePoint noon ''a'' fiveLeft =
     ([NotificationWarning, ImpactLight],
      fiveLeft\<lparr>remainingPoints := 6, isSortingFrozen := True, frozenItems := [bike],
               timers := [noon + 1000]\<rparr>)"
  by (simp add: removePoint_def freezeSorting_def fiveLeft_def bike_def
      MAX_DAILY_POINTS_def Let_def)

text \<open>
  C3. The specification: a vote on an item id that is not in the collection changes neither the
  items nor \<open>remainingPoints\<close>. The code, on the state \<open>fiveLeft\<close> and the absent id
  \<open>''zz''\<close>: the items stay as they are, but \<open>addPoint\<close> takes a point from the budget
  (5 to 4) and gives the success feedback, and \<open>removePoint\<close> gives the warning and
  then adds a point to the budget (5 to 6).
\<close>

theorem C3_votes_on_absent_item_change_budget:
  "find (\<lambda>it. item_id it = ''zz'') (items fiveLeft) = None \<and>
   remainingPoints fiveLeft = 5 \<and>
   addPoint noon ''zz'' fiveLeft =
     ([ImpactLight],
      fiveLeft\<lparr>remainingPoints := 4, isSortingFrozen := True, frozenItems := [bike],
               timers := [noon + 1000]\<rparr>) \<and>
   removePoint noon ''zz'' fiveLeft =
     ([NotificationWarning, ImpactLight],
      fiveLeft\<lparr>remainingPoints := 6, isSortingFrozen := True, frozenItems := [bike],
               timers := [noon + 1000]\<rparr>)"
  by (simp add: addPoint_def removePoint_def freezeSorting_def refreshSelected_def
      fiveLeft_def bike_def MAX_DAILY_POINTS_def Let_def)

subsection \<open>The history entry written by \<^verbatim>\<open>removePoint\<close>\<close>

lemma updateFirst_list_update:
  "i < length xs \<Longrightarrow> P (xs ! i) \<Longrightarrow> (\<forall>j<i. \<not> P (xs ! j)) \<Longrightarrow>
   updateFirst P f xs = xs[i := f (xs ! i)]"
proof (induction xs arbitrary: i)
  case Nil
  then show ?case by simp
next
  case (Cons x xs)
  show ?case
  proof (cases i)
    case 0
    with Cons.prems show ?thesis by simp
  next
    case (Suc n)
    with Cons.prems have "\<not> P x" by auto
    moreover have "updateFirst P f xs = xs[n := f (xs ! n)]"
      using Cons.prems Suc by (intro Cons.IH) auto
    ultimately show ?thesis using Suc by simp
  qed
qed

lemma find_map_update:
  assumes "\<And>x. P x \<Longrightarrow> P (f x)"
  shows "find P (map (\<lambda>x. if P x then f x else x) xs) = map_option f (find P xs)"
  using assms by (induction xs) auto

lemma item_id_removePointItem [simp]: "item_id (removePointItem today it) = item_id it"
  by (simp add: removePointItem_def Let_def)

lemma history_removePointItem_new:
  assumes "\<forall>e\<in>set (historyOrEmpty it). date e \<noteq> today"
  shows "pointHistory (removePointItem today it) =
           Some (historyOrEmpty it @ [\<lparr>date = today, entry_points = - 1\<rparr>])"
proof -
  have "find (\<lambda>entry. date entry = today) (historyOrEmpty it) = None"
    using assms by (simp add: find_None_iff)
  then show ?thesis
    by (simp add: removePointItem_def Let_def)
qed

lemma history_removePointItem_existing:
  assumes "i < length (historyOrEmpty it)" and "date (historyOrEmpty it ! i) = today"
    and "\<forall>j<i. date (historyOrEmpty it ! j) \<noteq> today"
  shows "pointHistory (removePointItem today it) =
           Some ((historyOrEmpty it)
                   [i := (historyOrEmpty it ! i)
                      \<lparr>entry_points := max 0 (entry_points (historyOrEmpty it ! i) - 1)\<rparr>])"
proof -
  have "\<exists>e\<in>set (historyOrEmpty it). date e = today"
    using assms(1,2) nth_mem by blast
  then obtain e where "find (\<lambda>entry. date entry = today) (historyOrEmpty it) = Some e"
    by (cases "find (\<lambda>entry. date entry = today) (historyOrEmpty it)")
       (auto simp: find_None_iff)
  moreover have "updateFirst (\<lambda>entry. date entry = today)
                   (\<lambda>entry. entry\<lparr>entry_points := max 0 (entry_points entry - 1)\<rparr>)
                   (historyOrEmpty it) =
                 (historyOrEmpty it)
                   [i := (historyOrEmpty it ! i)
                      \<lparr>entry_points := max 0 (entry_points (historyOrEmpty it ! i) - 1)\<rparr>]"
    using assms by (intro updateFirst_list_update) auto
  ultimately show ?thesis
    by (simp add: removePointItem_def Let_def)
qed

lemma find_after_removePoint:
  assumes "find (\<lambda>it. item_id it = ident) (items st) = Some target" and "0 < points target"
  shows "find (\<lambda>it. item_id it = ident) (items (snd (removePoint now ident st))) =
           Some (removePointItem (getTodayKey now) target)"
proof -
  have "find (\<lambda>it. item_id it = ident)
          (map (\<lambda>it. if item_id it = ident then removePointItem (getTodayKey now) it else it)
             (items st)) =
        map_option (removePointItem (getTodayKey now))
          (find (\<lambda>it. item_id it = ident) (items st))"
    by (rule find_map_update) simp
  with assms show ?thesis
    by (simp add: removePoint_def Let_def)
qed

lemma key_noon: "getTodayKey noon = ''2024-01-10''"
  unfolding noon_def by code_simp

lemma key_day_after_noon: "getTodayKey (noon + 86400000) = ''2024-01-11''"
  unfolding noon_def by code_simp

lemma key_week_before_noon: "getTodayKey (noon - 604800000) = ''2024-01-03''"
  unfolding noon_def by code_simp

text \<open>
  C4, as stated, fails: an entry of today that stands at 0 does not become -1. On the
  state \<open>votedToday\<close>, \<open>removePoint\<close> at \<open>noon\<close> takes the item's point (1 to 0) and
  leaves the entry of 2024-01-10 at 0, because of \<^verbatim>\<open>Math.max(0, todayEntry.points - 1)\<close>.
\<close>

theorem C4_existing_entry_is_clamped_counterexample:
  "getTodayKey noon = ''2024-01-10'' \<and>
   map (\<lambda>it. (points it, pointHistory it)) (items votedToday) =
     [(1, Some [\<lparr>date = ''2024-01-10'', entry_points = 0\<rparr>])] \<and>
   map (\<lambda>it. (points it, pointHistory it)) (items (snd (removePoint noon ''a'' votedToday))) =
     [(0, Some [\<lparr>date = ''2024-01-10'', entry_points = 0\<rparr>])] \<and>
   map (\<lambda>it. (points it, pointHistory it)) (items (snd (removePoint noon ''a'' votedToday))) \<noteq>
     [(0, Some [\<lparr>date = ''2024-01-10'', entry_points = - 1\<rparr>])]"
  by (simp add: key_noon removePoint_def removePointItem_def historyOrEmpty_def
      refreshSelected_def freezeSorting_def votedToday_def votedItem_def fiveLeft_def
      bike_def Let_def)

text \<open>
  C4, amended. When the item found under the id has points, \<open>removePoint\<close> takes one
  point from it and writes its history so: if the history has no entry of today, the
  entry \<open>(today, -1)\<close> is appended; if it has one, the first such entry \<open>e\<close> is set to
  \<open>max 0 (e - 1)\<close> where it stands, so a decrement never leaves an existing entry below
  0 (an entry at 0 stays at 0). \<open>found\<close> is the item under the id after the vote.
\<close>

theorem C4_removePoint_history_update:
  assumes "find (\<lambda>it. item_id it = ident) (items st) = Some target" and "0 < points target"
    and "h = historyOrEmpty target" and "today = getTodayKey now"
    and "found = find (\<lambda>it. item_id it = ident) (items (snd (removePoint now ident st)))"
  shows "map_option points found = Some (points target - 1) \<and>
         ((\<forall>e\<in>set h. date e \<noteq> today) \<longrightarrow>
            map_option pointHistory found =
              Some (Some (h @ [\<lparr>date = today, entry_points = - 1\<rparr>]))) \<and>
         (\<forall>i<length h. date (h ! i) = today \<and> (\<forall>j<i. date (h ! j) \<noteq> today) \<longrightarrow>
            map_option pointHistory found =
              Some (Some (h[i := (h ! i)\<lparr>entry_points := max 0 (entry_points (h ! i) - 1)\<rparr>])))"
proof -
  have f: "found = Some (removePointItem today target)"
    using assms by (simp add: find_after_removePoint)
  have "map_option points found = Some (points target - 1)"
    using f assms(2) by (simp add: removePointItem_def Let_def)
  moreover have "(\<forall>e\<in>set h. date e \<noteq> today) \<longrightarrow>
            map_option pointHistory found =
              Some (Some (h @ [\<lparr>date = today, entry_points = - 1\<rparr>]))"
    using f assms(3) by (simp add: history_removePointItem_new)
  moreover have "\<forall>i<length h. date (h ! i) = today \<and> (\<forall>j<i. date (h ! j) \<noteq> today) \<longrightarrow>
            map_option pointHistory found =
              Some (Some (h[i := (h ! i)\<lparr>entry_points := max 0 (entry_points (h ! i) - 1)\<rparr>]))"
    using f assms(3) by (simp add: history_removePointItem_existing)
  ultimately show ?thesis by blast
qed

text \<open>
  The theorem at \<open>votedToday\<close>: a vote down at \<open>noon\<close> meets the entry of 2024-01-10 and
  leaves it at 0; a vote down one day later finds no entry of 2024-01-11 and appends
  one at -1.
\<close>

theorem C4_removePoint_history_update_witness:
  "find (\<lambda>it. item_id it = ''a'') (items votedToday) = Some votedItem \<and>
   0 < points votedItem \<and>
   map_option pointHistory
     (find (\<lambda>it. item_id it = ''a'') (items (snd (removePoint noon ''a'' votedToday)))) =
     Some (Some [\<lparr>date = ''2024-01-10'', entry_points = 0\<rparr>]) \<and>
   map_option pointHistory
     (find (\<lambda>it. item_id it = ''a'')
        (items (snd (removePoint (noon + 86400000) ''a'' votedToday)))) =
     Some (Some [\<lparr>date = ''2024-01-10'', entry_points = 0\<rparr>,
                 \<lparr>date = ''2024-01-11'', entry_points = - 1\<rparr>])"
proof -
  have h1: "find (\<lambda>it. item_id it = ''a'') (items votedToday) = Some votedItem"
    by (simp add: votedToday_def votedItem_def bike_def)
  have h2: "0 < points votedItem"
    by (simp add: votedItem_def)
  have h: "historyOrEmpty votedItem = [\<lparr>date = ''2024-01-10'', entry_points = 0\<rparr>]"
    by (simp add: historyOrEmpty_def votedItem_def)
  note same_day = C4_removePoint_history_update [OF h1 h2 refl refl refl, of noon]
  note next_day = C4_removePoint_history_update [OF h1 h2 refl refl refl, of "noon + 86400000"]
  from same_day [THEN conjunct2, THEN conjunct2, THEN spec, of 0]
  have a: "map_option pointHistory
     (find (\<lambda>it. item_id it = ''a'') (items (snd (removePoint noon ''a'' votedToday)))) =
     Some (Some [\<lparr>date = ''2024-01-10'', entry_points = 0\<rparr>])"
    by (simp add: h key_noon)
  from next_day [THEN conjunct2, THEN conjunct1]
  have b: "map_option pointHistory
     (find (\<lambda>it. item_id it = ''a'')
        (items (snd (removePoint (noon + 86400000) ''a'' votedToday)))) =
     Some (Some [\<lparr>date = ''2024-01-10'', entry_points = 0\<rparr>,
                 \<lparr>date = ''2024-01-11'', entry_points = - 1\<rparr>])"
    by (simp add: h key_day_after_noon)
  from h1 h2 a b show ?thesis by blast
qed

subsection \<open>Day-keys are ordered as days\<close>

lemma boundary_table:
  "list_all (\<lambda>y. yearOfEra (daysBeforeYear y) = y \<and> yearOfEra (daysBeforeYear (y + 1) - 1) = y) [0..399]"
  by code_simp

lemma yearOfEra_first_day:
  "0 \<le> y \<Longrightarrow> y \<le> 399 \<Longrightarrow> yearOfEra (daysBeforeYear y) = y"
  using boundary_table by (simp add: list_all_iff del: upto_rec_numeral)

lemma yearOfEra_last_day:
  "0 \<le> y \<Longrightarrow> y \<le> 399 \<Longrightarrow> yearOfEra (daysBeforeYear (y + 1) - 1) = y"
  using boundary_table by (simp add: list_all_iff del: upto_rec_numeral)

lemma div_succ_le:
  fixes x k :: int
  assumes "1 \<le> k"
  shows "(x + 1) div k \<le> x div k + 1"
proof -
  have "(x + 1) div k \<le> (x + k) div k"
    using assms by (intro zdiv_mono1) simp_all
  also have "\<dots> = x div k + 1"
    using assms by simp
  finally show ?thesis .
qed

lemma div_succ_ge:
  fixes x k :: int
  assumes "1 \<le> k"
  shows "x div k \<le> (x + 1) div k"
  using assms by (intro zdiv_mono1) simp_all

lemma numerator_step:
  fixes doe :: int
  assumes "0 \<le> doe" and "doe < 146096"
  shows "doe - doe div 1460 + doe div 36524 - doe div 146096
       \<le> (doe + 1) - (doe + 1) div 1460 + (doe + 1) div 36524 - (doe + 1) div 146096"
proof (cases "doe + 1 = 146096")
  case True
  then have "doe = 146095" by simp
  then show ?thesis by simp
next
  case False
  define a a' b b' c c' where "a = doe div 1460" and "a' = (doe + 1) div 1460"
    and "b = doe div 36524" and "b' = (doe + 1) div 36524"
    and "c = doe div 146096" and "c' = (doe + 1) div 146096"
  have "c = 0"
    unfolding c_def using assms by (intro div_pos_pos_trivial) simp_all
  moreover have "c' = 0"
    unfolding c'_def using assms False by (intro div_pos_pos_trivial) simp_all
  moreover have "a' \<le> a + 1"
    unfolding a_def a'_def by (rule div_succ_le) simp
  moreover have "b \<le> b'"
    unfolding b_def b'_def by (rule div_succ_ge) simp
  ultimately have "doe - a + b - c \<le> (doe + 1) - a' + b' - c'"
    by linarith
  then show ?thesis
    unfolding a_def a'_def b_def b'_def c_def c'_def .
qed

lemma numerator_mono:
  fixes a b :: int
  assumes "0 \<le> a" and "a \<le> b" and "b \<le> 146096"
  shows "a - a div 1460 + a div 36524 - a div 146096
       \<le> b - b div 1460 + b div 36524 - b div 146096"
  using assms(2,3)
proof (induction b rule: int_ge_induct)
  case base
  show ?case by (rule order_refl)
next
  case (step i)
  from step.prems have "i \<le> 146096" by linarith
  then have "a - a div 1460 + a div 36524 - a div 146096
       \<le> i - i div 1460 + i div 36524 - i div 146096"
    by (rule step.IH)
  also have "\<dots> \<le> (i + 1) - (i + 1) div 1460 + (i + 1) div 36524 - (i + 1) div 146096"
  proof (rule numerator_step)
    from step.hyps assms(1) show "0 \<le> i" by linarith
    from step.prems show "i < 146096" by linarith
  qed
  finally show ?case .
qed

lemma yearOfEra_mono:
  assumes "0 \<le> a" and "a \<le> b" and "b \<le> 146096"
  shows "yearOfEra a \<le> yearOfEra b"
  unfolding yearOfEra_def
proof (rule zdiv_mono1)
  show "a - a div 1460 + a div 36524 - a div 146096
       \<le> b - b div 1460 + b div 36524 - b div 146096"
    using assms by (rule numerator_mono)
  show "(0::int) < 365" by simp
qed

lemma yearOfEra_0: "yearOfEra 0 = 0"
  by (simp add: yearOfEra_def)

lemma yearOfEra_last: "yearOfEra 146096 = 399"
  by (simp add: yearOfEra_def)

lemma yearOfEra_range:
  assumes "0 \<le> doe" and "doe \<le> 146096"
  shows "0 \<le> yearOfEra doe \<and> yearOfEra doe \<le> 399"
proof -
  have "yearOfEra 0 \<le> yearOfEra doe"
    using assms by (intro yearOfEra_mono) simp_all
  moreover have "yearOfEra doe \<le> yearOfEra 146096"
    using assms by (intro yearOfEra_mono) simp_all
  ultimately show ?thesis
    unfolding yearOfEra_0 yearOfEra_last by simp
qed

lemma daysBeforeYear_bound:
  assumes "0 \<le> y" and "y \<le> 399"
  shows "0 \<le> daysBeforeYear y \<and> daysBeforeYear y \<le> 146096"
proof -
  define q c where "q = y div 4" and "c = y div 100"
  have "y div 4 \<le> 399 div 4"
    using assms by (intro zdiv_mono1) simp_all
  then have a: "q \<le> 99" unfolding q_def by simp
  have b: "0 \<le> c"
    unfolding c_def using assms by (intro pos_imp_zdiv_nonneg_iff [THEN iffD2]) simp_all
  have "c \<le> q"
    unfolding c_def q_def using assms by (intro zdiv_mono2) simp_all
  with a b assms have "0 \<le> 365 * y + q - c \<and> 365 * y + q - c \<le> 146096"
    by linarith
  then show ?thesis
    unfolding daysBeforeYear_def q_def c_def .
qed

lemma daysBeforeYear_0: "daysBeforeYear 0 = 0"
  by (simp add: daysBeforeYear_def)

lemma daysBeforeYear_399: "daysBeforeYear 399 = 145731"
  by (simp add: daysBeforeYear_def)

lemma daysBeforeYear_step:
  "daysBeforeYear (y + 1) \<le> daysBeforeYear y + 366"
proof -
  define q q' c c' where "q = y div 4" and "q' = (y + 1) div 4"
    and "c = y div 100" and "c' = (y + 1) div 100"
  have "q' \<le> q + 1"
    unfolding q_def q'_def by (rule div_succ_le) simp
  moreover have "c \<le> c'"
    unfolding c_def c'_def by (rule div_succ_ge) simp
  ultimately have "365 * (y + 1) + q' - c' \<le> 365 * y + q - c + 366"
    by simp
  then show ?thesis
    unfolding daysBeforeYear_def q_def q'_def c_def c'_def .
qed

lemma year_starts_before_day:
  assumes "0 \<le> doe" and "doe \<le> 146096"
  shows "daysBeforeYear (yearOfEra doe) \<le> doe"
proof (rule ccontr)
  let ?y = "yearOfEra doe"
  from assms have r: "0 \<le> ?y" "?y \<le> 399"
    using yearOfEra_range by simp_all
  assume "\<not> daysBeforeYear ?y \<le> doe"
  then have lt: "doe \<le> daysBeforeYear ?y - 1" by linarith
  have "?y \<noteq> 0"
  proof
    assume "?y = 0"
    then have "daysBeforeYear ?y = 0"
      by (simp only: daysBeforeYear_0)
    with lt assms(1) show False by linarith
  qed
  with r have y1: "0 \<le> ?y - 1" "?y - 1 \<le> 399" by linarith+
  have "daysBeforeYear ?y - 1 \<le> 146096"
    using daysBeforeYear_bound [OF r] by linarith
  with lt assms(1) have "?y \<le> yearOfEra (daysBeforeYear ?y - 1)"
    by (intro yearOfEra_mono)
  also have "\<dots> = ?y - 1"
    using yearOfEra_last_day [OF y1] by simp
  finally show False by linarith
qed

lemma dayOfYear_range:
  assumes "0 \<le> doe" and "doe \<le> 146096"
  shows "0 \<le> doe - daysBeforeYear (yearOfEra doe) \<and>
         doe - daysBeforeYear (yearOfEra doe) \<le> 365"
proof -
  let ?y = "yearOfEra doe"
  from assms have r: "0 \<le> ?y" "?y \<le> 399"
    using yearOfEra_range by simp_all
  have upper: "doe \<le> daysBeforeYear ?y + 365"
  proof (cases "?y = 399")
    case True
    then have "daysBeforeYear ?y = 145731"
      by (simp only: daysBeforeYear_399)
    with assms(2) show ?thesis by linarith
  next
    case False
    with r have y1: "0 \<le> ?y + 1" "?y + 1 \<le> 399" by linarith+
    have "doe < daysBeforeYear (?y + 1)"
    proof (rule ccontr)
      assume "\<not> doe < daysBeforeYear (?y + 1)"
      then have ge: "daysBeforeYear (?y + 1) \<le> doe" by linarith
      have "0 \<le> daysBeforeYear (?y + 1)"
        using daysBeforeYear_bound [OF y1] by linarith
      from this ge assms(2) have "yearOfEra (daysBeforeYear (?y + 1)) \<le> ?y"
        by (rule yearOfEra_mono)
      then show False
        unfolding yearOfEra_first_day [OF y1] by linarith
    qed
    with daysBeforeYear_step [of ?y] show ?thesis by linarith
  qed
  with year_starts_before_day [OF assms] show ?thesis by linarith
qed


lemma div_lower:
  fixes x k :: int
  assumes "0 < k"
  shows "k * (x div k) \<le> x"
proof -
  have "x = k * (x div k) + x mod k" by simp
  moreover have "0 \<le> x mod k" using assms by simp
  ultimately show ?thesis by linarith
qed

lemma div_upper:
  fixes x k :: int
  assumes "0 < k"
  shows "x < k * (x div k) + k"
proof -
  have "x = k * (x div k) + x mod k" by simp
  moreover have "x mod k < k" using assms by simp
  ultimately show ?thesis by linarith
qed

lemma monthIndex_range:
  assumes "0 \<le> doy" and "doy \<le> 365"
  shows "0 \<le> monthIndex doy \<and> monthIndex doy \<le> 11"
proof -
  have "(5 * 0 + 2) div 153 \<le> monthIndex doy"
    unfolding monthIndex_def using assms by (intro zdiv_mono1) simp_all
  moreover have "monthIndex doy \<le> (5 * 365 + 2) div 153"
    unfolding monthIndex_def using assms by (intro zdiv_mono1) simp_all
  ultimately show ?thesis by simp
qed

lemma monthIndex_mono: "a \<le> b \<Longrightarrow> monthIndex a \<le> monthIndex b"
  unfolding monthIndex_def by (intro zdiv_mono1) simp_all

lemma dayOfMonth_range: "1 \<le> dayOfMonth doy \<and> dayOfMonth doy \<le> 31"
proof -
  define mp e where "mp = monthIndex doy" and "e = (153 * mp + 2) div 5"
  have m1: "153 * mp \<le> 5 * doy + 2"
    unfolding mp_def monthIndex_def by (rule div_lower) simp
  have m2: "5 * doy + 2 < 153 * mp + 153"
    unfolding mp_def monthIndex_def by (rule div_upper) simp
  have e1: "5 * e \<le> 153 * mp + 2"
    unfolding e_def by (rule div_lower) simp
  have e2: "153 * mp + 2 < 5 * e + 5"
    unfolding e_def by (rule div_upper) simp
  from m1 m2 e1 e2 have "1 \<le> doy - e + 1 \<and> doy - e + 1 \<le> 31"
    by linarith
  then show ?thesis
    unfolding dayOfMonth_def e_def mp_def .
qed

lemma dayOfMonth_mono:
  "a \<le> b \<Longrightarrow> monthIndex a = monthIndex b \<Longrightarrow> dayOfMonth a \<le> dayOfMonth b"
  by (simp add: dayOfMonth_def)


lemma dayRank_strict_mono:
  assumes "z < z'"
  shows "dayRank z < dayRank z'"
proof -
  define era doe yoe doy mp dom where "era = z div 146097" and "doe = z mod 146097"
    and "yoe = yearOfEra doe" and "doy = doe - daysBeforeYear yoe"
    and "mp = monthIndex doy" and "dom = dayOfMonth doy"
  define era' doe' yoe' doy' mp' dom' where "era' = z' div 146097" and "doe' = z' mod 146097"
    and "yoe' = yearOfEra doe'" and "doy' = doe' - daysBeforeYear yoe'"
    and "mp' = monthIndex doy'" and "dom' = dayOfMonth doy'"
  have r: "dayRank z = (12 * (yoe + era * 400) + mp) * 32 + dom"
    by (simp add: dayRank_def Let_def era_def doe_def yoe_def doy_def mp_def dom_def)
  have r': "dayRank z' = (12 * (yoe' + era' * 400) + mp') * 32 + dom'"
    by (simp add: dayRank_def Let_def era'_def doe'_def yoe'_def doy'_def mp'_def dom'_def)
  have z: "z = 146097 * era + doe" and z': "z' = 146097 * era' + doe'"
    by (simp_all add: era_def doe_def era'_def doe'_def)
  have doe: "0 \<le> doe" "doe \<le> 146096" and doe': "0 \<le> doe'" "doe' \<le> 146096"
    by (simp_all add: doe_def doe'_def zle_diff1_eq [symmetric])
  have yoe: "0 \<le> yoe" "yoe \<le> 399"
    using yearOfEra_range [OF doe] by (simp_all add: yoe_def)
  have yoe': "0 \<le> yoe'" "yoe' \<le> 399"
    using yearOfEra_range [OF doe'] by (simp_all add: yoe'_def)
  have doy: "0 \<le> doy" "doy \<le> 365"
    using dayOfYear_range [OF doe] by (simp_all add: doy_def yoe_def)
  have doy': "0 \<le> doy'" "doy' \<le> 365"
    using dayOfYear_range [OF doe'] by (simp_all add: doy'_def yoe'_def)
  have mp: "0 \<le> mp" "mp \<le> 11"
    using monthIndex_range [OF doy] by (simp_all add: mp_def)
  have mp': "0 \<le> mp'" "mp' \<le> 11"
    using monthIndex_range [OF doy'] by (simp_all add: mp'_def)
  have dom: "1 \<le> dom" "dom \<le> 31"
    using dayOfMonth_range [of doy] by (simp_all add: dom_def)
  have dom': "1 \<le> dom'" "dom' \<le> 31"
    using dayOfMonth_range [of doy'] by (simp_all add: dom'_def)
  have era: "era \<le> era'"
    unfolding era_def era'_def using assms by (intro zdiv_mono1) simp_all
  have "(12 * (yoe + era * 400) + mp) * 32 + dom < (12 * (yoe' + era' * 400) + mp') * 32 + dom'"
  proof (cases "era < era'")
    case True
    with yoe yoe' mp mp' dom dom' show ?thesis by simp
  next
    case False
    with era have same_era: "era' = era" by simp
    with assms z z' have lt: "doe < doe'" by simp
    then have "doe \<le> doe'" by simp
    with doe doe' have yy: "yoe \<le> yoe'"
      unfolding yoe_def yoe'_def by (intro yearOfEra_mono)
    show ?thesis
    proof (cases "yoe < yoe'")
      case True
      with same_era mp mp' dom dom' show ?thesis by simp
    next
      case False
      with yy have same_year: "yoe' = yoe" by simp
      with lt have dd: "doy < doy'"
        by (simp add: doy_def doy'_def)
      then have mm: "mp \<le> mp'"
        unfolding mp_def mp'_def by (intro monthIndex_mono) simp
      show ?thesis
      proof (cases "mp < mp'")
        case True
        with same_era same_year dom dom' show ?thesis by simp
      next
        case False
        with mm have same_month: "mp' = mp" by simp
        with dd have "dom < dom'"
          by (simp add: dom_def dom'_def mp_def mp'_def dayOfMonth_def)
        with same_era same_year same_month show ?thesis by simp
      qed
    qed
  qed
  with r r' show ?thesis by simp
qed

lemma dayRank_le_iff: "dayRank z \<le> dayRank z' \<longleftrightarrow> z \<le> z'"
proof
  assume "dayRank z \<le> dayRank z'"
  show "z \<le> z'"
  proof (rule ccontr)
    assume "\<not> z \<le> z'"
    then have "dayRank z' < dayRank z"
      by (intro dayRank_strict_mono) simp
    with \<open>dayRank z \<le> dayRank z'\<close> show False by simp
  qed
next
  assume "z \<le> z'"
  then consider "z < z'" | "z = z'" by linarith
  then show "dayRank z \<le> dayRank z'"
  proof cases
    case 1
    then have "dayRank z < dayRank z'" by (rule dayRank_strict_mono)
    then show ?thesis by simp
  next
    case 2
    then show ?thesis by simp
  qed
qed

lemma civil_rank:
  assumes "civil n = (y, m, d)"
  shows "(12 * y + m - 1) * 32 + d = dayRank (n + 719468) + 64"
    and "1 \<le> m" and "m \<le> 12" and "1 \<le> d" and "d \<le> 31"
proof -
  define era doe yoe doy mp where "era = (n + 719468) div 146097"
    and "doe = (n + 719468) mod 146097"
    and "yoe = yearOfEra doe" and "doy = doe - daysBeforeYear yoe"
    and "mp = monthIndex doy"
  have doe: "0 \<le> doe" "doe \<le> 146096"
    by (simp_all add: doe_def zle_diff1_eq [symmetric])
  have doy: "0 \<le> doy" "doy \<le> 365"
    using dayOfYear_range [OF doe] by (simp_all add: doy_def yoe_def)
  have mp: "0 \<le> mp" "mp \<le> 11"
    using monthIndex_range [OF doy] by (simp_all add: mp_def)
  have c: "civil n = (yoe + era * 400 + (if (if mp < 10 then mp + 3 else mp - 9) \<le> 2 then 1 else 0),
                     if mp < 10 then mp + 3 else mp - 9, dayOfMonth doy)"
    by (simp add: civil_def Let_def era_def doe_def yoe_def doy_def mp_def)
  have r: "dayRank (n + 719468) = (12 * (yoe + era * 400) + mp) * 32 + dayOfMonth doy"
    by (simp add: dayRank_def Let_def era_def doe_def yoe_def doy_def mp_def)
  from c assms have y: "y = yoe + era * 400 + (if (if mp < 10 then mp + 3 else mp - 9) \<le> 2 then 1 else 0)"
    and m: "m = (if mp < 10 then mp + 3 else mp - 9)" and d: "d = dayOfMonth doy"
    by simp_all
  from m mp show "1 \<le> m" and "m \<le> 12"
    by (simp_all split: if_splits)
  from d dayOfMonth_range [of doy] show "1 \<le> d" and "d \<le> 31"
    by simp_all
  show "(12 * y + m - 1) * 32 + d = dayRank (n + 719468) + 64"
  proof (cases "mp < 10")
    case True
    with y m d r mp show ?thesis by simp
  next
    case False
    with y m d r mp show ?thesis by simp
  qed
qed

lemma rank_lex:
  fixes y m d y' m' d' :: int
  assumes "1 \<le> m" "m \<le> 12" "1 \<le> d" "d \<le> 31"
    and "1 \<le> m'" "m' \<le> 12" "1 \<le> d'" "d' \<le> 31"
  shows "(12 * y + m - 1) * 32 + d \<le> (12 * y' + m' - 1) * 32 + d' \<longleftrightarrow>
         y < y' \<or> y = y' \<and> (m < m' \<or> m = m' \<and> d \<le> d')"
  using assms by auto

lemma digit_cases:
  fixes a :: int
  assumes "0 \<le> a" and "a \<le> 9"
  shows "a = 0 \<or> a = 1 \<or> a = 2 \<or> a = 3 \<or> a = 4 \<or> a = 5 \<or> a = 6 \<or> a = 7 \<or> a = 8 \<or> a = 9"
  using assms by arith

lemma of_char_digit:
  assumes "0 \<le> a" and "a \<le> 9"
  shows "(of_char (digit a) :: nat) = nat a + 48"
  using digit_cases [OF assms] by (elim disjE) (simp_all add: digit_def)

lemma digit_less_iff:
  assumes "0 \<le> a" "a \<le> 9" "0 \<le> b" "b \<le> 9"
  shows "digit a < digit b \<longleftrightarrow> a < b"
  using assms by (auto simp: less_char_def of_char_digit)

lemma digit_eq_iff:
  assumes "0 \<le> a" "a \<le> 9" "0 \<le> b" "b \<le> 9"
  shows "digit a = digit b \<longleftrightarrow> a = b"
proof
  assume "digit a = digit b"
  then have "(of_char (digit a) :: nat) = of_char (digit b)" by simp
  with assms show "a = b" by (simp add: of_char_digit)
qed simp

lemma two_digits:
  fixes n :: int
  assumes "0 \<le> n" and "n \<le> 99"
  shows "0 \<le> n div 10 \<and> n div 10 \<le> 9 \<and> n div 10 mod 10 = n div 10 \<and>
         0 \<le> n mod 10 \<and> n mod 10 \<le> 9 \<and> n = 10 * (n div 10) + n mod 10"
proof -
  have "n div 10 \<le> 99 div 10"
    using assms by (intro zdiv_mono1) simp_all
  then have a: "n div 10 \<le> 9" by simp
  have b: "0 \<le> n div 10" using assms by simp
  from a b have "n div 10 mod 10 = n div 10" by simp
  with a b show ?thesis by (simp add: zle_diff1_eq [symmetric])
qed

lemma lex_pair:
  fixes a b a' b' :: int
  assumes "0 \<le> b" "b \<le> k - 1" "0 \<le> b'" "b' \<le> k - 1"
  shows "(a < a' \<or> a = a' \<and> (b < b' \<or> b = b' \<and> R)) \<longleftrightarrow>
         (k * a + b < k * a' + b' \<or> k * a + b = k * a' + b' \<and> R)"
proof -
  have lt: "a < a' \<Longrightarrow> k * a + b < k * a' + b'"
  proof -
    assume "a < a'"
    then have "a + 1 \<le> a'" by simp
    moreover have "0 \<le> k" using assms by linarith
    ultimately have "k * (a + 1) \<le> k * a'" by (intro mult_left_mono)
    then have "k * a + k \<le> k * a'" by (simp add: algebra_simps)
    with assms show ?thesis by linarith
  qed
  have gt: "a' < a \<Longrightarrow> k * a' + b' < k * a + b"
  proof -
    assume "a' < a"
    then have "a' + 1 \<le> a" by simp
    moreover have "0 \<le> k" using assms by linarith
    ultimately have "k * (a' + 1) \<le> k * a" by (intro mult_left_mono)
    then have "k * a' + k \<le> k * a" by (simp add: algebra_simps)
    with assms show ?thesis by linarith
  qed
  consider "a < a'" | "a = a'" | "a' < a" by linarith
  then show ?thesis
  proof cases
    case 1
    with lt show ?thesis by simp
  next
    case 2
    then show ?thesis by auto
  next
    case 3
    with gt [OF 3] show ?thesis by auto
  qed
qed

lemma pad2_le:
  assumes "0 \<le> n" "n \<le> 99" "0 \<le> n'" "n' \<le> 99"
  shows "pad2 n @ r \<le> pad2 n' @ r' \<longleftrightarrow> n < n' \<or> n = n' \<and> r \<le> r'"
proof -
  define a b a' b' where "a = n div 10" and "b = n mod 10"
    and "a' = n' div 10" and "b' = n' mod 10"
  from two_digits [OF assms(1,2)] have
    d: "0 \<le> a" "a \<le> 9" "0 \<le> b" "b \<le> 9" and n: "n = 10 * a + b"
    and p: "pad2 n = [digit a, digit b]"
    by (simp_all add: a_def b_def pad2_def)
  from two_digits [OF assms(3,4)] have
    d': "0 \<le> a'" "a' \<le> 9" "0 \<le> b'" "b' \<le> 9" and n': "n' = 10 * a' + b'"
    and p': "pad2 n' = [digit a', digit b']"
    by (simp_all add: a'_def b'_def pad2_def)
  have "pad2 n @ r \<le> pad2 n' @ r' \<longleftrightarrow>
        a < a' \<or> a = a' \<and> (b < b' \<or> b = b' \<and> r \<le> r')"
    using d d' by (simp add: p p' digit_less_iff digit_eq_iff)
  also have "\<dots> \<longleftrightarrow> 10 * a + b < 10 * a' + b' \<or> 10 * a + b = 10 * a' + b' \<and> r \<le> r'"
    using d d' by (intro lex_pair) simp_all
  finally show ?thesis
    unfolding n n' .
qed

lemma tens_digit:
  fixes n :: int
  shows "n div 10 mod 10 = n mod 100 div 10 mod 10"
proof -
  have "n mod 100 = n + (- (n div 100) * 10) * 10"
    by (simp add: minus_mult_div_eq_mod [symmetric])
  then have "n mod 100 div 10 = (n + (- (n div 100) * 10) * 10) div 10"
    by simp
  also have "\<dots> = - (n div 100) * 10 + n div 10"
    by (rule div_mult_self1) simp
  finally have "n mod 100 div 10 mod 10 = (n div 10 + (- (n div 100)) * 10) mod 10"
    by (simp add: add.commute)
  also have "\<dots> = n div 10 mod 10"
    by (rule mod_mult_self1)
  finally show ?thesis by simp
qed

lemma length_pad2 [simp]: "length (pad2 n) = 2"
  by (simp add: pad2_def)

lemma length_pad4 [simp]: "length (pad4 n) = 4"
  by (simp add: pad4_def)

lemma pad4_split:
  fixes n :: int
  shows "pad4 n = pad2 (n div 100) @ pad2 (n mod 100)"
proof -
  have "n div 1000 = n div 100 div 10"
    by (simp add: zdiv_zmult2_eq)
  moreover have "n div 10 mod 10 = n mod 100 div 10 mod 10"
    by (rule tens_digit)
  moreover have "n mod 10 = n mod 100 mod 10"
    by (simp add: mod_mod_cancel)
  ultimately show ?thesis
    by (simp only: pad4_def pad2_def append.simps)
qed

lemma four_digits:
  fixes n :: int
  assumes "0 \<le> n" and "n \<le> 9999"
  shows "0 \<le> n div 100 \<and> n div 100 \<le> 99 \<and> 0 \<le> n mod 100 \<and> n mod 100 \<le> 99 \<and>
         n = 100 * (n div 100) + n mod 100"
proof -
  have "n div 100 \<le> 9999 div 100"
    using assms by (intro zdiv_mono1) simp_all
  then have "n div 100 \<le> 99" by simp
  moreover have "0 \<le> n div 100" using assms by simp
  ultimately show ?thesis by (simp add: zle_diff1_eq [symmetric])
qed

lemma pad4_le:
  assumes "0 \<le> n" "n \<le> 9999" "0 \<le> n'" "n' \<le> 9999"
  shows "pad4 n @ r \<le> pad4 n' @ r' \<longleftrightarrow> n < n' \<or> n = n' \<and> r \<le> r'"
proof -
  define a b a' b' where "a = n div 100" and "b = n mod 100"
    and "a' = n' div 100" and "b' = n' mod 100"
  from four_digits [OF assms(1,2)] have
    d: "0 \<le> a" "a \<le> 99" "0 \<le> b" "b \<le> 99" and n: "n = 100 * a + b"
    by (simp_all add: a_def b_def)
  from four_digits [OF assms(3,4)] have
    d': "0 \<le> a'" "a' \<le> 99" "0 \<le> b'" "b' \<le> 99" and n': "n' = 100 * a' + b'"
    by (simp_all add: a'_def b'_def)
  have "pad4 n @ r \<le> pad4 n' @ r' \<longleftrightarrow>
        pad2 a @ (pad2 b @ r) \<le> pad2 a' @ (pad2 b' @ r')"
    by (simp add: pad4_split a_def b_def a'_def b'_def)
  also have "\<dots> \<longleftrightarrow> a < a' \<or> a = a' \<and> (pad2 b @ r \<le> pad2 b' @ r')"
    using d d' by (intro pad2_le)
  also have "\<dots> \<longleftrightarrow> a < a' \<or> a = a' \<and> (b < b' \<or> b = b' \<and> r \<le> r')"
    using d d' by (simp add: pad2_le)
  also have "\<dots> \<longleftrightarrow> 100 * a + b < 100 * a' + b' \<or> 100 * a + b = 100 * a' + b' \<and> r \<le> r'"
    using d d' by (intro lex_pair) simp_all
  finally show ?thesis
    unfolding n n' .
qed

lemma isoDate_le:
  assumes "0 \<le> y" "y \<le> 9999" "0 \<le> y'" "y' \<le> 9999"
    and "1 \<le> m" "m \<le> 12" "1 \<le> m'" "m' \<le> 12"
    and "1 \<le> d" "d \<le> 31" "1 \<le> d'" "d' \<le> 31"
  shows "take 10 (isoYear y @ ''-'' @ pad2 m @ ''-'' @ pad2 d)
           \<le> take 10 (isoYear y' @ ''-'' @ pad2 m' @ ''-'' @ pad2 d')
         \<longleftrightarrow> y < y' \<or> y = y' \<and> (m < m' \<or> m = m' \<and> d \<le> d')"
proof -
  have "take 10 (isoYear y @ ''-'' @ pad2 m @ ''-'' @ pad2 d)
           \<le> take 10 (isoYear y' @ ''-'' @ pad2 m' @ ''-'' @ pad2 d')
        \<longleftrightarrow> pad4 y @ (''-'' @ pad2 m @ ''-'' @ pad2 d @ [])
           \<le> pad4 y' @ (''-'' @ pad2 m' @ ''-'' @ pad2 d' @ [])"
    using assms(1-4) by (simp add: isoYear_def)
  also have "\<dots> \<longleftrightarrow> y < y' \<or> y = y' \<and>
       (''-'' @ pad2 m @ ''-'' @ pad2 d @ [] \<le> ''-'' @ pad2 m' @ ''-'' @ pad2 d' @ [])"
    using assms(1-4) by (intro pad4_le)
  also have "\<dots> \<longleftrightarrow> y < y' \<or> y = y' \<and>
       (pad2 m @ (''-'' @ pad2 d @ []) \<le> pad2 m' @ (''-'' @ pad2 d' @ []))"
    by simp
  also have "\<dots> \<longleftrightarrow> y < y' \<or> y = y' \<and>
       (m < m' \<or> m = m' \<and> (''-'' @ pad2 d @ [] \<le> ''-'' @ pad2 d' @ []))"
    using assms(5-8) by (subst pad2_le) simp_all
  also have "\<dots> \<longleftrightarrow> y < y' \<or> y = y' \<and>
       (m < m' \<or> m = m' \<and> (pad2 d @ [] \<le> pad2 d' @ []))"
    by simp
  also have "\<dots> \<longleftrightarrow> y < y' \<or> y = y' \<and> (m < m' \<or> m = m' \<and> (d < d' \<or> d = d' \<and> ([]::string) \<le> []))"
    using assms(9-12) by (subst pad2_le) simp_all
  also have "\<dots> \<longleftrightarrow> y < y' \<or> y = y' \<and> (m < m' \<or> m = m' \<and> d \<le> d')"
    by auto
  finally show ?thesis .
qed


lemma civil_first_day: "civil (- 719528) = (0, 1, 1)"
  by code_simp

lemma civil_last_day: "civil 2932896 = (9999, 12, 31)"
  by code_simp

lemma civil_year_range:
  assumes "- 719528 \<le> n" and "n \<le> 2932896" and "civil n = (y, m, d)"
  shows "0 \<le> y \<and> y \<le> 9999"
proof -
  note c = civil_rank [OF assms(3)]
  note lo = civil_rank [OF civil_first_day]
  note hi = civil_rank [OF civil_last_day]
  have "dayRank (- 719528 + 719468) \<le> dayRank (n + 719468)"
    using assms(1) by (simp add: dayRank_le_iff)
  moreover have "dayRank (n + 719468) \<le> dayRank (2932896 + 719468)"
    using assms(2) by (simp add: dayRank_le_iff)
  ultimately have "(12 * 0 + 1 - 1) * 32 + 1 \<le> (12 * y + m - 1) * 32 + d \<and>
                   (12 * y + m - 1) * 32 + d \<le> (12 * 9999 + 12 - 1) * 32 + (31::int)"
    using c(1) lo(1) hi(1) by linarith
  with c(2-5) show ?thesis by auto
qed

lemma day_in_range:
  assumes "fourDigitYear t"
  shows "- 719528 \<le> t div 86400000 \<and> t div 86400000 \<le> 2932896"
proof -
  from assms have t: "- 62167219200000 \<le> t" "t \<le> 253402300799999"
    by (simp_all add: fourDigitYear_def)
  have "(- 62167219200000) div 86400000 \<le> t div 86400000"
    using t(1) by (rule zdiv_mono1) simp
  moreover have "t div 86400000 \<le> 253402300799999 div 86400000"
    using t(2) by (rule zdiv_mono1) simp
  ultimately show ?thesis by simp
qed

lemma getTodayKey_le_iff:
  assumes "fourDigitYear a" and "fourDigitYear b"
  shows "getTodayKey a \<le> getTodayKey b \<longleftrightarrow> a div 86400000 \<le> b div 86400000"
proof -
  obtain y m d where ca: "civil (a div 86400000) = (y, m, d)"
    by (cases "civil (a div 86400000)") auto
  obtain y' m' d' where cb: "civil (b div 86400000) = (y', m', d')"
    by (cases "civil (b div 86400000)") auto
  note ra = civil_rank [OF ca] and rb = civil_rank [OF cb]
  have ya: "0 \<le> y \<and> y \<le> 9999"
    using day_in_range [OF assms(1)] ca by (intro civil_year_range [of _ y m d]) simp_all
  have yb: "0 \<le> y' \<and> y' \<le> 9999"
    using day_in_range [OF assms(2)] cb by (intro civil_year_range [of _ y' m' d']) simp_all
  have "getTodayKey a \<le> getTodayKey b \<longleftrightarrow>
        y < y' \<or> y = y' \<and> (m < m' \<or> m = m' \<and> d \<le> d')"
    unfolding getTodayKey_def ca cb prod.case
    using ya yb ra(2-5) rb(2-5) by (intro isoDate_le) simp_all
  also have "\<dots> \<longleftrightarrow> (12 * y + m - 1) * 32 + d \<le> (12 * y' + m' - 1) * 32 + d'"
    using ra(2-5) rb(2-5) by (intro rank_lex [symmetric])
  also have "\<dots> \<longleftrightarrow> dayRank (a div 86400000 + 719468) \<le> dayRank (b div 86400000 + 719468)"
    using ra(1) rb(1) by simp
  also have "\<dots> \<longleftrightarrow> a div 86400000 \<le> b div 86400000"
    by (simp add: dayRank_le_iff)
  finally show ?thesis .
qed

lemma day_shift:
  fixes now k :: int
  shows "(now - k * 86400000) div 86400000 = now div 86400000 - k"
proof -
  have "(now + (- k) * 86400000) div 86400000 = - k + now div 86400000"
    by (rule div_mult_self1) simp
  then show ?thesis by simp
qed

lemma key_in_window_iff:
  assumes "fourDigitYear (now - 604800000)" and "fourDigitYear (now - k * 86400000)"
  shows "getTodayKey (now - 604800000) \<le> getTodayKey (now - k * 86400000) \<longleftrightarrow> k \<le> 7"
proof -
  have "(now - 7 * 86400000) div 86400000 = now div 86400000 - 7"
    by (rule day_shift)
  then have seven: "(now - 604800000) div 86400000 = now div 86400000 - 7"
    by simp
  show ?thesis
    unfolding getTodayKey_le_iff [OF assms] seven day_shift by linarith
qed

lemma fourDigitYear_between:
  "fourDigitYear a \<Longrightarrow> fourDigitYear b \<Longrightarrow> a \<le> t \<Longrightarrow> t \<le> b \<Longrightarrow> fourDigitYear t"
  by (simp add: fourDigitYear_def)

subsection \<open>The weekly sum and the trend\<close>

lemma fold_conditional_sum:
  fixes f :: "'a \<Rightarrow> int"
  shows "fold (\<lambda>e w. if P e then w + f e else w) h acc =
           acc + sum_list (map f (filter P h))"
  by (induction h arbitrary: acc) auto

lemma keys_before_noon:
  "getTodayKey (noon - 86400000) = ''2024-01-09''"
  "getTodayKey (noon - 172800000) = ''2024-01-08''"
  "getTodayKey (noon - 259200000) = ''2024-01-07''"
  "getTodayKey (noon - 345600000) = ''2024-01-06''"
  "getTodayKey (noon - 432000000) = ''2024-01-05''"
  "getTodayKey (noon - 518400000) = ''2024-01-04''"
  unfolding noon_def by code_simp+

lemma window_noon:
  "specWindowKeys noon =
     [''2024-01-10'', ''2024-01-09'', ''2024-01-08'', ''2024-01-07'', ''2024-01-06'',
      ''2024-01-05'', ''2024-01-04'']"
  by (simp add: specWindowKeys_def key_noon keys_before_noon)

text \<open>
  C5, as stated, fails: the entry dated exactly seven days before the day of evaluation
  is counted. At \<open>noon\<close> (2024-01-10) the key of seven days ago is 2024-01-03, the
  test is \<^verbatim>\<open>entry.date >= sevenDaysAgoKey\<close>, and the item \<open>votedLastWeek\<close>, whose only
  entry is dated 2024-01-03, has a weekly sum of 6, where the sum over the seven days
  that end at 2024-01-10 is 0.
\<close>

theorem C5_entry_seven_days_old_is_counted_counterexample:
  "getTodayKey (noon - 7 * 86400000) = ''2024-01-03'' \<and>
   pointHistory votedLastWeek = Some [\<lparr>date = ''2024-01-03'', entry_points = 6\<rparr>] \<and>
   getWeeklyPoints votedLastWeek noon = 6 \<and>
   specWeeklyPoints votedLastWeek noon = 0 \<and>
   getWeeklyPoints votedLastWeek noon \<noteq> specWeeklyPoints votedLastWeek noon"
  by (simp add: key_week_before_noon window_noon getWeeklyPoints_def specWeeklyPoints_def
      historyOrEmpty_def votedLastWeek_def bike_def Let_def)

text \<open>
  C5, amended. For every item and every instant \<open>now\<close>, \<open>getWeeklyPoints\<close> is the sum of
  the deltas of exactly those history entries whose day-key is, as a string, at least
  the day-key of the instant seven times 24 hours before \<open>now\<close>; the deltas are summed
  as they are, with no clamping. Within the years of four digits that is a window of
  days: the day-key of \<open>k\<close> days before \<open>now\<close> (after \<open>now\<close>, when \<open>k\<close> is negative) is in
  the window exactly when \<open>k \<le> 7\<close>. So the entry dated exactly seven days before the
  day of \<open>now\<close> is counted, an entry dated ten days before is not, and the window has
  no upper end.
\<close>

theorem C5_getWeeklyPoints_sums_from_seven_days_ago:
  "getWeeklyPoints item now =
     sum_list (map entry_points
       (filter (\<lambda>entry. getTodayKey (now - 604800000) \<le> date entry) (historyOrEmpty item))) \<and>
   (fourDigitYear (now - 604800000) \<and> fourDigitYear (now - k * 86400000) \<longrightarrow>
      (getTodayKey (now - 604800000) \<le> getTodayKey (now - k * 86400000) \<longleftrightarrow> k \<le> 7))"
proof (intro conjI impI)
  show "getWeeklyPoints item now =
     sum_list (map entry_points
       (filter (\<lambda>entry. getTodayKey (now - 604800000) \<le> date entry) (historyOrEmpty item)))"
    by (cases "pointHistory item")
       (simp_all add: getWeeklyPoints_def historyOrEmpty_def Let_def fold_conditional_sum)
next
  assume "fourDigitYear (now - 604800000) \<and> fourDigitYear (now - k * 86400000)"
  then show "getTodayKey (now - 604800000) \<le> getTodayKey (now - k * 86400000) \<longleftrightarrow> k \<le> 7"
    by (simp add: key_in_window_iff)
qed

text \<open>
  The theorem at \<open>longHistory\<close> and \<open>noon\<close>: the entry of ten days ago (6) is left out,
  those of seven days ago (6), of today (-2) and of tomorrow (1) are summed: 5.
\<close>

theorem C5_getWeeklyPoints_sums_from_seven_days_ago_witness:
  "fourDigitYear (noon - 604800000) \<and> fourDigitYear (noon - 10 * 86400000) \<and>
   \<not> getTodayKey (noon - 604800000) \<le> getTodayKey (noon - 10 * 86400000) \<and>
   getTodayKey (noon - 604800000) = ''2024-01-03'' \<and> getWeeklyPoints longHistory noon = 5"
proof -
  have h1: "fourDigitYear (noon - 604800000)"
    by (simp add: fourDigitYear_def noon_def)
  have h2: "fourDigitYear (noon - 10 * 86400000)"
    by (simp add: fourDigitYear_def noon_def)
  note c = C5_getWeeklyPoints_sums_from_seven_days_ago [of longHistory noon 10]
  from c [THEN conjunct2] h1 h2
  have out: "\<not> getTodayKey (noon - 604800000) \<le> getTodayKey (noon - 10 * 86400000)"
    by simp
  from c [THEN conjunct1] have "getWeeklyPoints longHistory noon = 5"
    by (simp add: key_week_before_noon longHistory_def historyOrEmpty_def bike_def)
  with h1 h2 out key_week_before_noon show ?thesis by simp
qed

text \<open>
  C6. For every item and instant, with \<open>w\<close> the weekly sum, \<open>getTrendingStatus\<close> is
  hot exactly when \<open>w \<ge> 10\<close>, trending exactly when \<open>5 \<le> w < 10\<close>, and none exactly
  when \<open>w < 5\<close>. And, at every instant of a day \<open>D\<close> within the years of four digits,
  an item whose history is a delta 6 at the day \<open>D - 2\<close> and a delta 5 at the day
  \<open>D - 6\<close> has the weekly sum 11 and is hot.
\<close>

theorem C6_trend_classification:
  "(getTrendingStatus item now = StatusHot \<longleftrightarrow> getWeeklyPoints item now \<ge> 10) \<and>
   (getTrendingStatus item now = StatusTrending \<longleftrightarrow>
      5 \<le> getWeeklyPoints item now \<and> getWeeklyPoints item now < 10) \<and>
   (getTrendingStatus item now = StatusNone \<longleftrightarrow> getWeeklyPoints item now < 5) \<and>
   (fourDigitYear (now - 604800000) \<and> fourDigitYear now \<longrightarrow>
      getWeeklyPoints
        (item\<lparr>pointHistory :=
                 Some [\<lparr>date = getTodayKey (now - 2 * 86400000), entry_points = 6\<rparr>,
                       \<lparr>date = getTodayKey (now - 6 * 86400000), entry_points = 5\<rparr>]\<rparr>) now = 11 \<and>
      getTrendingStatus
        (item\<lparr>pointHistory :=
                 Some [\<lparr>date = getTodayKey (now - 2 * 86400000), entry_points = 6\<rparr>,
                       \<lparr>date = getTodayKey (now - 6 * 86400000), entry_points = 5\<rparr>]\<rparr>) now =
        StatusHot)"
proof (intro conjI impI)
  assume range: "fourDigitYear (now - 604800000) \<and> fourDigitYear now"
  let ?item = "item\<lparr>pointHistory :=
                 Some [\<lparr>date = getTodayKey (now - 2 * 86400000), entry_points = 6\<rparr>,
                       \<lparr>date = getTodayKey (now - 6 * 86400000), entry_points = 5\<rparr>]\<rparr>"
  from range have r2: "fourDigitYear (now - 2 * 86400000)"
    and r6: "fourDigitYear (now - 6 * 86400000)"
    by (auto intro: fourDigitYear_between [of "now - 604800000" now])
  from range have r7: "fourDigitYear (now - 604800000)" by simp
  have "getTodayKey (now - 604800000) \<le> getTodayKey (now - 2 * 86400000)"
    unfolding key_in_window_iff [OF r7 r2] by simp
  moreover have "getTodayKey (now - 604800000) \<le> getTodayKey (now - 6 * 86400000)"
    unfolding key_in_window_iff [OF r7 r6] by simp
  ultimately show w: "getWeeklyPoints ?item now = 11"
    by (simp add: getWeeklyPoints_def)
  then show "getTrendingStatus ?item now = StatusHot"
    by (simp add: getTrendingStatus_def)
qed (simp_all add: getTrendingStatus_def Let_def)

text \<open>
  The theorem at \<open>noon\<close> (2024-01-10): the entries are dated 2024-01-08 and 2024-01-04.
\<close>

theorem C6_trend_classification_witness:
  "fourDigitYear (noon - 604800000) \<and> fourDigitYear noon \<and>
   getTodayKey (noon - 2 * 86400000) = ''2024-01-08'' \<and>
   getTodayKey (noon - 6 * 86400000) = ''2024-01-04'' \<and>
   getWeeklyPoints
     (bike\<lparr>pointHistory := Some [\<lparr>date = ''2024-01-08'', entry_points = 6\<rparr>,
                                   \<lparr>date = ''2024-01-04'', entry_points = 5\<rparr>]\<rparr>) noon = 11 \<and>
   getTrendingStatus
     (bike\<lparr>pointHistory := Some [\<lparr>date = ''2024-01-08'', entry_points = 6\<rparr>,
                                   \<lparr>date = ''2024-01-04'', entry_points = 5\<rparr>]\<rparr>) noon = StatusHot"
proof -
  have h1: "fourDigitYear (noon - 604800000)"
    by (simp add: fourDigitYear_def noon_def)
  have h2: "fourDigitYear noon"
    by (simp add: fourDigitYear_def noon_def)
  have k2: "getTodayKey (noon - 2 * 86400000) = ''2024-01-08''"
    by (simp add: keys_before_noon)
  have k6: "getTodayKey (noon - 6 * 86400000) = ''2024-01-04''"
    by (simp add: keys_before_noon)
  from C6_trend_classification [of bike noon, THEN conjunct2, THEN conjunct2, THEN conjunct2]
    h1 h2
  have "getWeeklyPoints
     (bike\<lparr>pointHistory := Some [\<lparr>date = ''2024-01-08'', entry_points = 6\<rparr>,
                                   \<lparr>date = ''2024-01-04'', entry_points = 5\<rparr>]\<rparr>) noon = 11 \<and>
   getTrendingStatus
     (bike\<lparr>pointHistory := Some [\<lparr>date = ''2024-01-08'', entry_points = 6\<rparr>,
                                   \<lparr>date = ''2024-01-04'', entry_points = 5\<rparr>]\<rparr>) noon = StatusHot"
    by (simp add: keys_before_noon)
  with h1 h2 k2 k6 show ?thesis by simp
qed

subsection \<open>The freeze of the view\<close>

lemma sortMode_applyVote [simp]: "sortMode (applyVote v st) = sortMode st"
  by (cases v) (simp_all add: addPoint_def removePoint_def freezeSorting_def Let_def)

lemma timers_applyVote:
  "sortMode st = SortPoints \<Longrightarrow>
   timers (applyVote v st) = timers st @ [voteInstant v + 1000]"
  by (cases v) (simp_all add: addPoint_def removePoint_def freezeSorting_def Let_def)

lemma frozen_applyVote:
  "sortMode st = SortPoints \<Longrightarrow> isSortingFrozen (applyVote v st)"
  by (cases v) (simp_all add: addPoint_def removePoint_def freezeSorting_def Let_def)

lemma runTimers_none_due:
  "\<not> list_ex (\<lambda>due. due \<le> now) (timers st) \<Longrightarrow> runTimers now st = st"
  by (simp add: runTimers_def)

text \<open>
  C7, as stated, fails: the second vote starts a second timeout and the first one still
  runs. On \<open>fiveLeft\<close> (sorted by points), after a vote at \<open>noon\<close> and a vote 500 ms
  later, two timeouts are pending, due 1000 ms and 1500 ms after \<open>noon\<close>; the view is
  frozen then, and it is no longer frozen 1000 ms after \<open>noon\<close>, nor 1499 ms after.
\<close>

theorem C7_first_timeout_unfreezes_counterexample:
  "sortMode fiveLeft = SortPoints \<and>
   timers (applyVote (Upvote (noon + 500) ''a'')
            (runTimers (noon + 500) (applyVote (Upvote noon ''a'') fiveLeft))) =
     [noon + 1000, noon + 1500] \<and>
   isSortingFrozen (applyVote (Upvote (noon + 500) ''a'')
                      (runTimers (noon + 500) (applyVote (Upvote noon ''a'') fiveLeft))) \<and>
   \<not> isSortingFrozen
        (runTimers (noon + 1000)
           (applyVote (Upvote (noon + 500) ''a'')
              (runTimers (noon + 500) (applyVote (Upvote noon ''a'') fiveLeft)))) \<and>
   \<not> isSortingFrozen
        (runTimers (noon + 1499)
           (applyVote (Upvote (noon + 500) ''a'')
              (runTimers (noon + 500) (applyVote (Upvote noon ''a'') fiveLeft))))"
  by (simp add: addPoint_def freezeSorting_def runTimers_def fiveLeft_def Let_def)

text \<open>
  C7, amended. Under the sort mode by points every vote freezes the view and starts a
  timeout of its own, 1000 ms long, and no vote cancels a pending timeout; the view is
  unfrozen when the first pending timeout runs. So, starting with no timeout pending,
  a vote at \<open>t\<close> followed by a vote at \<open>t + d\<close> with \<open>0 \<le> d < 1000\<close> leaves both
  timeouts pending, and at any later or earlier instant \<open>u\<close> the view is frozen exactly
  when \<open>u < t + 1000\<close>.
\<close>

theorem C7_view_unfreezes_when_first_timeout_runs:
  assumes "sortMode st = SortPoints" and "timers st = []"
    and "voteInstant v2 = voteInstant v1 + d" and "0 \<le> d" and "d < 1000"
  shows "timers (applyVote v2 (runTimers (voteInstant v2) (applyVote v1 st))) =
           [voteInstant v1 + 1000, voteInstant v2 + 1000] \<and>
         (isSortingFrozen
            (runTimers u (applyVote v2 (runTimers (voteInstant v2) (applyVote v1 st))))
          \<longleftrightarrow> u < voteInstant v1 + 1000)"
proof -
  let ?s1 = "applyVote v1 st"
  have t1: "timers ?s1 = [voteInstant v1 + 1000]"
    using assms(1,2) by (simp add: timers_applyVote)
  have "runTimers (voteInstant v2) ?s1 = ?s1"
    using t1 assms(3,5) by (simp add: runTimers_none_due)
  then have s2: "applyVote v2 (runTimers (voteInstant v2) ?s1) = applyVote v2 ?s1"
    by simp
  have t2: "timers (applyVote v2 ?s1) = [voteInstant v1 + 1000, voteInstant v2 + 1000]"
    using assms(1) t1 by (simp add: timers_applyVote)
  have f2: "isSortingFrozen (applyVote v2 ?s1)"
    using assms(1) by (simp add: frozen_applyVote)
  have "isSortingFrozen (runTimers u (applyVote v2 ?s1)) \<longleftrightarrow> u < voteInstant v1 + 1000"
    using t2 f2 assms(3,4) by (auto simp: runTimers_def)
  with s2 t2 show ?thesis by simp
qed

text \<open>
  The theorem at \<open>fiveLeft\<close>, a vote up at \<open>noon\<close> and a vote down 500 ms later, seen
  999 ms after \<open>noon\<close>.
\<close>

theorem C7_view_unfreezes_when_first_timeout_runs_witness:
  "sortMode fiveLeft = SortPoints \<and> timers fiveLeft = [] \<and>
   voteInstant (Downvote (noon + 500) ''a'') = voteInstant (Upvote noon ''a'') + 500 \<and>
   (0::int) \<le> 500 \<and> (500::int) < 1000 \<and>
   timers (applyVote (Downvote (noon + 500) ''a'')
            (runTimers (voteInstant (Downvote (noon + 500) ''a''))
               (applyVote (Upvote noon ''a'') fiveLeft))) =
     [voteInstant (Upvote noon ''a'') + 1000, voteInstant (Downvote (noon + 500) ''a'') + 1000] \<and>
   (isSortingFrozen
      (runTimers (noon + 999)
         (applyVote (Downvote (noon + 500) ''a'')
            (runTimers (voteInstant (Downvote (noon + 500) ''a''))
               (applyVote (Upvote noon ''a'') fiveLeft))))
    \<longleftrightarrow> noon + 999 < voteInstant (Upvote noon ''a'') + 1000)"
proof -
  have h1: "sortMode fiveLeft = SortPoints"
    by (simp add: fiveLeft_def)
  have h2: "timers fiveLeft = []"
    by (simp add: fiveLeft_def)
  have h3: "voteInstant (Downvote (noon + 500) ''a'') = voteInstant (Upvote noon ''a'') + 500"
    by simp
  have h4: "(0::int) \<le> 500"
    by simp
  have h5: "(500::int) < 1000"
    by simp
  from C7_view_unfreezes_when_first_timeout_runs [OF h1 h2 h3 h4 h5, of "noon + 999"]
    h1 h2 h3 h4 h5
  show ?thesis by blast
qed

subsection \<open>The order of the view under the sort mode by price\<close>

lemma sorted_descending_sort_key:
  fixes f :: "'a \<Rightarrow> 'b::linordered_idom"
  shows "sorted_wrt (\<lambda>a b. f a \<ge> f b) (sort_key (\<lambda>a. - f a) xs)"
proof -
  have "sorted (map (\<lambda>a. - f a) (sort_key (\<lambda>a. - f a) xs))"
    by (rule sorted_sort_key)
  then show ?thesis
    by (simp add: sorted_wrt_map)
qed

text \<open>
  C8, as stated, fails: the comparator of the sort mode by price reads \<^verbatim>\<open>price\<close> of the
  item itself, and \<open>getCurrentDisplayItem\<close> is applied only when a row is drawn. In
  \<open>byPrice\<close> the bike (own price 10) displays the price 100 of its selected option and
  the lamp displays 50; the view puts the lamp first, so the displayed prices run 50,
  100 and are not descending.
\<close>

theorem C8_price_sort_ignores_selected_option_counterexample:
  "sortMode byPrice = SortPrice \<and>
   sortedItems byPrice = [lamp, bikeWithOption] \<and>
   map (\<lambda>i. (price i, price (getCurrentDisplayItem i))) (sortedItems byPrice) =
     [(50, 50), (10, 100)] \<and>
   \<not> sorted_wrt (\<lambda>a b. price (getCurrentDisplayItem a) \<ge> price (getCurrentDisplayItem b))
        (sortedItems byPrice)"
  by (simp add: sortedItems_def byPrice_def fiveLeft_def lamp_def bikeWithOption_def bike_def
      carbon_def sort_key_def getCurrentDisplayItem_def)

text \<open>
  C8, amended. For every state under the sort mode by price, the view is in descending
  order of the items' own \<^verbatim>\<open>price\<close> field, whatever option is selected, and holds
  exactly the items of its source (the frozen items when frozen, else the items)
  that pass the filter on purchased items.
\<close>

theorem C8_price_sort_is_by_own_price:
  assumes "sortMode st = SortPrice"
  shows "sorted_wrt (\<lambda>a b. price a \<ge> price b) (sortedItems st) \<and>
         mset (sortedItems st) =
           mset (filter (\<lambda>i. \<not> (hidePurchased st \<and> isPurchased i))
                   (if isSortingFrozen st then frozenItems st else items st))"
  using assms by (auto simp: sortedItems_def Let_def sorted_descending_sort_key)

text \<open>The theorem at \<open>byPrice\<close>.\<close>

theorem C8_price_sort_is_by_own_price_witness:
  "sortMode byPrice = SortPrice \<and>
   sorted_wrt (\<lambda>a b. price a \<ge> price b) (sortedItems byPrice) \<and>
   mset (sortedItems byPrice) =
     mset (filter (\<lambda>i. \<not> (hidePurchased byPrice \<and> isPurchased i))
             (if isSortingFrozen byPrice then frozenItems byPrice else items byPrice))"
proof -
  have h: "sortMode byPrice = SortPrice"
    by (simp add: byPrice_def)
  from C8_price_sort_is_by_own_price [OF h] h show ?thesis by blast
qed

subsection \<open>The daily reset\<close>

text \<open>
  C9. \<open>checkAndResetDailyPoints\<close> is idempotent: a second call at an instant of the same
  day-key as the first returns the state that the first call returned, so it changes
  neither \<open>remainingPoints\<close> nor \<open>lastResetDate\<close> (nor anything else).
\<close>

theorem C9_checkAndResetDailyPoints_idempotent:
  "getTodayKey now2 = getTodayKey now1 \<Longrightarrow>
   checkAndResetDailyPoints now2 (checkAndResetDailyPoints now1 st) =
     checkAndResetDailyPoints now1 st"
  by (simp add: checkAndResetDailyPoints_def Let_def)

lemma key_hour_after_noon: "getTodayKey (noon + 3600000) = ''2024-01-10''"
  unfolding noon_def by code_simp

text \<open>
  The theorem at \<open>resetYesterday\<close>: the call at \<open>noon\<close> resets the budget to 15 and the
  date to 2024-01-10, and a call one hour later changes nothing.
\<close>

theorem C9_checkAndResetDailyPoints_idempotent_witness:
  "getTodayKey (noon + 3600000) = getTodayKey noon \<and>
   remainingPoints (checkAndResetDailyPoints noon resetYesterday) = 15 \<and>
   lastResetDate (checkAndResetDailyPoints noon resetYesterday) = ''2024-01-10'' \<and>
   checkAndResetDailyPoints (noon + 3600000) (checkAndResetDailyPoints noon resetYesterday) =
     checkAndResetDailyPoints noon resetYesterday"
proof -
  have h: "getTodayKey (noon + 3600000) = getTodayKey noon"
    by (simp add: key_noon key_hour_after_noon)
  have "remainingPoints (checkAndResetDailyPoints noon resetYesterday) = 15"
    and "lastResetDate (checkAndResetDailyPoints noon resetYesterday) = ''2024-01-10''"
    by (simp_all add: checkAndResetDailyPoints_def key_noon resetYesterday_def fiveLeft_def
        MAX_DAILY_POINTS_def)
  with C9_checkAndResetDailyPoints_idempotent [OF h, of resetYesterday] h
  show ?thesis by blast
qed

subsection \<open>The first option of an item\<close>

lemma addOptionToItem_nth:
  assumes "k < length (items st)" and "item_id (items st ! k) = itemId"
  shows "items (addOptionToItem itemId opt st) ! k = addOptionItem opt (items st ! k)"
  using assms by (simp add: addOptionToItem_def)

lemma newItem_without_options:
  "options (newItem now fn p fl fi sc) = None"
  "selectedOptionId (newItem now fn p fl fi sc) = None"
  by (simp_all add: newItem_def)

lemma saveNewItem_items:
  "items (saveNewItem now fn fp fl fi sc st) = items st \<or>
   (\<exists>p. items (saveNewItem now fn fp fl fi sc st) = newItem now fn p fl fi sc # items st)"
  by (cases fp) (auto simp: saveNewItem_def)

lemma addOptionItem_without_options:
  assumes "options it = None" and "selectedOptionId it = None"
  shows "options (addOptionItem opt it) = Some [opt]"
    and "selectedOptionId (addOptionItem opt it) = None"
    and "getCurrentDisplayItem (addOptionItem opt it) = addOptionItem opt it"
    and "name (addOptionItem opt it) = name it"
    and "price (addOptionItem opt it) = price it"
    and "link (addOptionItem opt it) = link it"
    and "imageUrl (addOptionItem opt it) = imageUrl it"
  using assms by (simp_all add: addOptionItem_def getCurrentDisplayItem_def Let_def)

text \<open>
  C10. \<open>addOptionToItem\<close> sets \<open>selectedOptionId\<close> of the item it is called on to the
  new option's id exactly when the item's \<open>options\<close> field is the empty list, and
  leaves \<open>selectedOptionId\<close> as it is otherwise, also when the field is absent. Every
  item that \<open>saveNewItem\<close> adds has no \<open>options\<close> and no \<open>selectedOptionId\<close>; after
  \<open>addOptionToItem\<close> on it, it has the option in its list, still no
  \<open>selectedOptionId\<close>, and it is displayed as itself, with its own name, price, link
  and image.
\<close>

theorem C10_first_option_not_selected_when_options_absent:
  "(k < length (items st) \<and> item_id (items st ! k) = itemId \<longrightarrow>
      selectedOptionId (items (addOptionToItem itemId opt st) ! k) =
        (if options (items st ! k) = Some [] then Some (opt_id opt)
         else selectedOptionId (items st ! k))) \<and>
   (items (saveNewItem now fn fp fl fi sc st) \<noteq> items st \<longrightarrow>
      (\<exists>it it' rest.
         items (saveNewItem now fn fp fl fi sc st) = it # items st \<and>
         options it = None \<and> selectedOptionId it = None \<and>
         items (addOptionToItem (item_id it) opt (saveNewItem now fn fp fl fi sc st)) =
           it' # rest \<and>
         options it' = Some [opt] \<and> selectedOptionId it' = None \<and>
         getCurrentDisplayItem it' = it' \<and>
         name it' = name it \<and> price it' = price it \<and> link it' = link it \<and>
         imageUrl it' = imageUrl it))"
proof (intro conjI impI)
  assume "k < length (items st) \<and> item_id (items st ! k) = itemId"
  then show "selectedOptionId (items (addOptionToItem itemId opt st) ! k) =
           (if options (items st ! k) = Some [] then Some (opt_id opt)
            else selectedOptionId (items st ! k))"
    by (cases "options (items st ! k)")
       (simp_all add: addOptionToItem_nth addOptionItem_def Let_def)
next
  let ?st' = "saveNewItem now fn fp fl fi sc st"
  assume "items ?st' \<noteq> items st"
  with saveNewItem_items [of now fn fp fl fi sc st]
  obtain p where saved: "items ?st' = newItem now fn p fl fi sc # items st"
    by blast
  let ?it = "newItem now fn p fl fi sc"
  have fresh: "options ?it = None" "selectedOptionId ?it = None"
    by (simp_all add: newItem_without_options)
  have "items (addOptionToItem (item_id ?it) opt ?st') =
          addOptionItem opt ?it #
          map (\<lambda>item. if item_id item \<noteq> item_id ?it then item else addOptionItem opt item)
            (items st)"
    by (simp add: addOptionToItem_def saved)
  with saved fresh addOptionItem_without_options [OF fresh, of opt]
  show "\<exists>it it' rest.
            items ?st' = it # items st \<and>
            options it = None \<and> selectedOptionId it = None \<and>
            items (addOptionToItem (item_id it) opt ?st') = it' # rest \<and>
            options it' = Some [opt] \<and> selectedOptionId it' = None \<and>
            getCurrentDisplayItem it' = it' \<and>
            name it' = name it \<and> price it' = price it \<and> link it' = link it \<and>
            imageUrl it' = imageUrl it"
    by blast
qed

text \<open>
  The theorem at \<open>fiveLeft\<close>: an option added to its item \<open>''a''\<close>, which has no
  \<open>options\<close> field, and a desk saved at \<open>noon\<close> that then gets the same option.
\<close>

theorem C10_first_option_not_selected_when_options_absent_witness:
  "0 < length (items fiveLeft) \<and> item_id (items fiveLeft ! 0) = ''a'' \<and>
   items (saveNewItem noon ''Desk'' (PriceNumber 20) [] [] None fiveLeft) \<noteq> items fiveLeft \<and>
   options (items fiveLeft ! 0) = None \<and>
   selectedOptionId (items (addOptionToItem ''a'' carbon fiveLeft) ! 0) = None \<and>
   (\<exists>it it' rest.
      items (saveNewItem noon ''Desk'' (PriceNumber 20) [] [] None fiveLeft) =
        it # items fiveLeft \<and>
      options it = None \<and> selectedOptionId it = None \<and>
      items (addOptionToItem (item_id it) carbon
               (saveNewItem noon ''Desk'' (PriceNumber 20) [] [] None fiveLeft)) = it' # rest \<and>
      options it' = Some [carbon] \<and> selectedOptionId it' = None \<and>
      getCurrentDisplayItem it' = it' \<and>
      name it' = name it \<and> price it' = price it \<and> link it' = link it \<and>
      imageUrl it' = imageUrl it)"
proof -
  have h1: "0 < length (items fiveLeft) \<and> item_id (items fiveLeft ! 0) = ''a''"
    by (simp add: fiveLeft_def bike_def)
  have h3: "items (saveNewItem noon ''Desk'' (PriceNumber 20) [] [] None fiveLeft) \<noteq>
              items fiveLeft"
    by (simp add: saveNewItem_def)
  have o: "options (items fiveLeft ! 0) = None"
    and s: "selectedOptionId (items fiveLeft ! 0) = None"
    by (simp_all add: fiveLeft_def bike_def)
  note c = C10_first_option_not_selected_when_options_absent
             [of 0 fiveLeft "''a''" carbon noon "''Desk''" "PriceNumber 20" "[]" "[]" None]
  from c [THEN conjunct1, THEN mp, OF h1] have
    "selectedOptionId (items (addOptionToItem ''a'' carbon fiveLeft) ! 0) = None"
    by (simp add: o s)
  with c [THEN conjunct2, THEN mp, OF h3] h1 h3 o show ?thesis by blast
qed

end
